theory Spec2Isabelle
  imports Main
begin

section \<open>Text and the string methods the kernel calls\<close>

text \<open>
  The development embeds \<^verbatim>\<open>jupyter_asm_kernel/kernel.py\<close>. A Python \<^verbatim>\<open>str\<close> is a
  \<^typ>\<open>string\<close>; a \<^typ>\<open>char\<close> stands for the code point of the same number, so the
  texts covered are those over code points below 256. A Python \<^verbatim>\<open>bytes\<close> value is a
  \<^typ>\<open>string\<close> too, one \<^typ>\<open>char\<close> per byte. The classification of characters
  below is CPython's for that range.
\<close>

type_synonym bytes = string

definition is_space :: "char \<Rightarrow> bool" where
  \<comment> \<open>\<^verbatim>\<open>str.isspace\<close> on one character; also the class \<^verbatim>\<open>\s\<close> of \<^verbatim>\<open>re\<close>.\<close>
  "is_space c = (c \<in> set [CHR 0x09, CHR 0x0A, CHR 0x0B, CHR 0x0C, CHR 0x0D,
                          CHR 0x1C, CHR 0x1D, CHR 0x1E, CHR 0x1F, CHR 0x20,
                          CHR 0x85, CHR 0xA0])"

definition is_linebreak :: "char \<Rightarrow> bool" where
  \<comment> \<open>The line boundaries of \<^verbatim>\<open>str.splitlines\<close>.\<close>
  "is_linebreak c = (c \<in> set [CHR 0x0A, CHR 0x0B, CHR 0x0C, CHR 0x0D,
                              CHR 0x1C, CHR 0x1D, CHR 0x1E, CHR 0x85])"

fun splitlines_from :: "string \<Rightarrow> string \<Rightarrow> string list" where
  \<comment> \<open>First argument: the characters of the current line, latest first.\<close>
  "splitlines_from acc [] = (if acc = [] then [] else [rev acc])"
| "splitlines_from acc (c # cs) =
     (if c = CHR 0x0D then
        (case cs of
           [] \<Rightarrow> [rev acc]
         | d # ds \<Rightarrow> if d = CHR 0x0A then rev acc # splitlines_from [] ds
                     else rev acc # splitlines_from [] cs)
      else if is_linebreak c then rev acc # splitlines_from [] cs
      else splitlines_from (c # acc) cs)"

definition splitlines :: "string \<Rightarrow> string list" where
  \<comment> \<open>\<^verbatim>\<open>code.splitlines()\<close>: \<^verbatim>\<open>\r\n\<close> is one boundary, no empty last line.\<close>
  "splitlines s = splitlines_from [] s"

definition startswith :: "string \<Rightarrow> string \<Rightarrow> bool" where
  "startswith s p = (take (length p) s = p)"

fun split_sep :: "char \<Rightarrow> nat \<Rightarrow> string \<Rightarrow> string list" where
  \<comment> \<open>\<^verbatim>\<open>s.split(sep, maxsplit)\<close> for a one-character separator.\<close>
  "split_sep sep 0 s = [s]"
| "split_sep sep (Suc n) s =
     (if sep \<in> set s
      then takeWhile (\<lambda>c. c \<noteq> sep) s # split_sep sep n (tl (dropWhile (\<lambda>c. c \<noteq> sep) s))
      else [s])"

definition strip :: "string \<Rightarrow> string" where
  \<comment> \<open>\<^verbatim>\<open>s.strip()\<close>\<close>
  "strip s = rev (dropWhile is_space (rev (dropWhile is_space s)))"

definition strip_chars :: "char \<Rightarrow> string \<Rightarrow> string" where
  \<comment> \<open>\<^verbatim>\<open>s.strip(c)\<close> for a one-character set.\<close>
  "strip_chars q s = rev (dropWhile (\<lambda>c. c = q) (rev (dropWhile (\<lambda>c. c = q) s)))"

definition lower_char :: "char \<Rightarrow> char" where
  "lower_char c =
     (let n = (of_char c :: nat) in
      if (65 \<le> n \<and> n \<le> 90) \<or> (192 \<le> n \<and> n \<le> 222 \<and> n \<noteq> 215)
      then char_of (n + 32) else c)"

definition lower :: "string \<Rightarrow> string" where
  \<comment> \<open>\<^verbatim>\<open>s.lower()\<close>\<close>
  "lower s = map lower_char s"

fun split_ws_from :: "string \<Rightarrow> string \<Rightarrow> string list" where
  \<comment> \<open>First argument: the characters of the current word, latest first.\<close>
  "split_ws_from acc [] = (if acc = [] then [] else [rev acc])"
| "split_ws_from acc (c # cs) =
     (if is_space c
      then (if acc = [] then split_ws_from [] cs else rev acc # split_ws_from [] cs)
      else split_ws_from (c # acc) cs)"

definition split_ws :: "string \<Rightarrow> string list" where
  \<comment> \<open>\<^verbatim>\<open>s.split()\<close>: runs of whitespace separate, no empty word.\<close>
  "split_ws s = split_ws_from [] s"

fun join :: "string \<Rightarrow> string list \<Rightarrow> string" where
  \<comment> \<open>\<^verbatim>\<open>sep.join(xs)\<close>\<close>
  "join sep [] = []"
| "join sep [x] = x"
| "join sep (x # y # ys) = x @ sep @ join sep (y # ys)"

subsection \<open>The argument pattern\<close>

text \<open>
  \<^verbatim>\<open>re.findall(r'(?:[^\s,"]|"(?:\\.|[^"])*")+', value)\<close>. The engine backtracks and
  takes the first match in priority order: a repetition tries another round before it
  stops, and an alternation tries its branches from the left. Inside the quotes the
  branch \<^verbatim>\<open>\\.\<close> (a backslash and any character but a newline) comes before
  \<^verbatim>\<open>[^"]\<close>, and stopping at the closing quote comes last.
\<close>

fun quoted_rest :: "string \<Rightarrow> (string \<times> string) option" where
  \<comment> \<open>After an opening quote: the matched text up to and with the closing quote, and
      what follows it.\<close>
  "quoted_rest [] = None"
| "quoted_rest [c] = (if c = CHR 0x22 then Some ([c], []) else None)"
| "quoted_rest (c # d # ds) =
     (case (if c = CHR 0x5C \<and> d \<noteq> CHR 0x0A
            then map_option (\<lambda>(m, r). (c # d # m, r)) (quoted_rest ds) else None) of
        Some res \<Rightarrow> Some res
      | None \<Rightarrow>
          (if c \<noteq> CHR 0x22
           then map_option (\<lambda>(m, r). (c # m, r)) (quoted_rest (d # ds))
           else Some ([c], d # ds)))"

definition match_item :: "string \<Rightarrow> (string \<times> string) option" where
  \<comment> \<open>One round of the outer group at the head of the text.\<close>
  "match_item s =
     (case s of
        [] \<Rightarrow> None
      | c # cs \<Rightarrow>
          if \<not> is_space c \<and> c \<noteq> CHR '','' \<and> c \<noteq> CHR 0x22 then Some ([c], cs)
          else if c = CHR 0x22
          then map_option (\<lambda>(m, r). (c # m, r)) (quoted_rest cs)
          else None)"

lemma quoted_rest_splits: "quoted_rest s = Some (m, r) \<Longrightarrow> s = m @ r \<and> m \<noteq> []"
  by (induction s arbitrary: m r rule: quoted_rest.induct)
     (auto split: if_splits option.splits)

function match_items :: "string \<Rightarrow> string \<times> string" where
  \<comment> \<open>The rounds of the outer group, as many as match: the matched text and the rest.\<close>
  "match_items s =
     (case match_item s of
        None \<Rightarrow> ([], s)
      | Some (m, r) \<Rightarrow> (let (ms, r') = match_items r in (m @ ms, r')))"
  by pat_completeness auto
termination
proof (relation "measure length")
  show "wf (measure length)" by simp
next
  fix s :: string and x2 x y
  assume "match_item s = Some x2" and "(x, y) = x2"
  then have "match_item s = Some (x, y)" by simp
  then have "s = x @ y \<and> x \<noteq> []"
    by (auto simp: match_item_def split: list.splits if_splits dest: quoted_rest_splits)
  then show "(y, s) \<in> measure length" by auto
qed

declare match_items.simps [simp del]

lemma match_items_splits: "match_items s = (m, r) \<Longrightarrow> s = m @ r"
proof (induction s arbitrary: m r rule: match_items.induct)
  case (1 s)
  show ?case
  proof (cases "match_item s")
    case None
    with "1.prems" show ?thesis by (simp add: match_items.simps [of s])
  next
    case (Some p)
    obtain a b where p: "p = (a, b)" by (cases p)
    obtain ms r' where rec: "match_items b = (ms, r')" by (cases "match_items b")
    have ab: "s = a @ b"
      using Some p
      by (auto simp: match_item_def split: list.splits if_splits dest: quoted_rest_splits)
    have b: "b = ms @ r'"
      using "1.IH" [OF Some p [symmetric] rec] .
    have "match_items s = (a @ ms, r')"
      using Some p rec by (simp add: match_items.simps [of s])
    with "1.prems" have "m = a @ ms" and "r = r'" by simp_all
    with ab b show ?thesis by simp
  qed
qed

function findall_args :: "string \<Rightarrow> string list" where
  \<comment> \<open>\<^verbatim>\<open>re.findall\<close> of the argument pattern: leftmost matches, none overlapping.\<close>
  "findall_args [] = []"
| "findall_args (c # cs) =
     (case match_items (c # cs) of
        (m, r) \<Rightarrow> if m = [] then findall_args cs else m # findall_args r)"
  by pat_completeness auto
termination
proof (relation "measure length", goal_cases)
  case 1
  show ?case by simp
next
  case (2 c cs x y)
  show ?case by simp
next
  case (3 c cs x y)
  then have "c # cs = x @ y" by (metis match_items_splits)
  then have "length (c # cs) = length x + length y" by (metis length_append)
  with \<open>x \<noteq> []\<close> show ?case by simp
qed

section \<open>Exceptions\<close>

text \<open>
  The exceptions of the code paths embedded here; each carries its message, which is
  what \<^verbatim>\<open>str(err)\<close> gives. \<^verbatim>\<open>ValueError\<close> is raised by the unpacking in
  \<^verbatim>\<open>_filter_magics\<close>, with CPython's messages; the others come from the library and
  the operating system. All are subclasses of \<^verbatim>\<open>Exception\<close> but
  \<^verbatim>\<open>KeyboardInterrupt\<close>, which derives from \<^verbatim>\<open>BaseException\<close> alone: it is what
  a call into the library raises when the kernel is interrupted while the call waits.
\<close>

datatype py_exception =
    ValueError string
  | UnicodeDecodeError string
  | OSError string
  | ExceptionPexpect string
  | StdinNotImplementedError string
  | KeyboardInterrupt string

fun is_Exception :: "py_exception \<Rightarrow> bool" where
  \<comment> \<open>\<^verbatim>\<open>isinstance(err, Exception)\<close>: what \<^verbatim>\<open>except Exception\<close> catches.\<close>
  "is_Exception (KeyboardInterrupt m) = False"
| "is_Exception err = True"

fun str_exception :: "py_exception \<Rightarrow> string" where
  "str_exception (ValueError m) = m"
| "str_exception (UnicodeDecodeError m) = m"
| "str_exception (OSError m) = m"
| "str_exception (ExceptionPexpect m) = m"
| "str_exception (StdinNotImplementedError m) = m"
| "str_exception (KeyboardInterrupt m) = m"

section \<open>The directive parser\<close>

record magics =
  verbose :: bool
  compiler :: string
  linker :: string
  cflags :: "string list"
  ldflags :: "string list"
  args :: "string list"

definition default_magics :: magics where
  "default_magics =
     \<lparr>verbose = True, compiler = ''yasm'', linker = ''gcc'',
      cflags = [], ldflags = [], args = []\<rparr>"

definition unpack2 :: "string list \<Rightarrow> py_exception + string \<times> string" where
  \<comment> \<open>\<^verbatim>\<open>key, value = parts\<close>\<close>
  "unpack2 parts =
     (case parts of
        [k, v] \<Rightarrow> Inr (k, v)
      | [] \<Rightarrow> Inl (ValueError ''not enough values to unpack (expected 2, got 0)'')
      | [k] \<Rightarrow> Inl (ValueError ''not enough values to unpack (expected 2, got 1)'')
      | _ \<Rightarrow> Inl (ValueError ''too many values to unpack (expected 2)''))"

definition apply_directive :: "string \<Rightarrow> string \<Rightarrow> magics \<Rightarrow> magics" where
  \<comment> \<open>The \<^verbatim>\<open>if\<close>/\<^verbatim>\<open>elif\<close> chain on the cleaned key, lines 143 to 155.\<close>
  "apply_directive key val m =
     (if key = ''ldflags''
      then fold (\<lambda>flag m. m\<lparr>ldflags := ldflags m @ [flag]\<rparr>) (split_ws val) m
      else if key = ''cflags''
      then fold (\<lambda>flag m. m\<lparr>cflags := cflags m @ [flag]\<rparr>) (split_ws val) m
      else if key = ''compiler'' \<and> strip val \<in> set [''yasm'', ''nasm'']
      then m\<lparr>compiler := strip val\<rparr>
      else if key = ''linker'' \<and> strip val \<in> set [''gcc'', ''ld'']
      then m\<lparr>linker := strip val\<rparr>
      else if key = ''verbose'' \<and> strip (lower val) \<in> set [''false'', ''0'']
      then m\<lparr>verbose := False\<rparr>
      else if key = ''args''
      then fold (\<lambda>argument m. m\<lparr>args := args m @ [strip_chars (CHR 0x22) argument]\<rparr>)
             (findall_args val) m
      else m)"

definition parse_directive :: "string \<Rightarrow> magics \<Rightarrow> py_exception + magics" where
  \<comment> \<open>The body of \<^verbatim>\<open>if line.startswith(';%')\<close>, lines 140 to 155.\<close>
  "parse_directive line m =
     (case unpack2 (split_sep (CHR '':'') 2 (drop 2 line)) of
        Inl e \<Rightarrow> Inl e
      | Inr (key, val) \<Rightarrow> Inr (apply_directive (strip (lower (strip key))) val m))"

fun filter_lines :: "magics \<Rightarrow> string \<Rightarrow> string list \<Rightarrow> py_exception + magics \<times> string" where
  \<comment> \<open>The loop over the lines; the second argument is \<^verbatim>\<open>actual_code\<close>.\<close>
  "filter_lines m actual_code [] = Inr (m, actual_code)"
| "filter_lines m actual_code (line # ls) =
     (if startswith line '';%''
      then (case parse_directive line m of
              Inl e \<Rightarrow> Inl e
            | Inr m' \<Rightarrow> filter_lines m' actual_code ls)
      else filter_lines m (actual_code @ line @ [CHR 0x0A]) ls)"

section \<open>Effects\<close>

text \<open>
  What the kernel does to the outside is recorded as a trace of events; the state
  threaded through the code holds the trace, the answers the front end will give to the
  coming input requests, and the paths that exist in the file system. A computation
  returns a value, raises an exception, or never returns (\<open>Diverge\<close>): the two
  \<^verbatim>\<open>while\<close> loops of the source end only when the subprocess exits and when the
  front end answers.
\<close>

datatype event =
    Stdout string            \<comment> \<open>\<^verbatim>\<open>_write_to_stdout\<close>: a stream message named stdout\<close>
  | Stderr string            \<comment> \<open>\<^verbatim>\<open>_write_to_stderr\<close>\<close>
  | RawInput                 \<comment> \<open>a call of \<^verbatim>\<open>raw_input\<close>\<close>
  | StdinWrite bytes         \<comment> \<open>\<^verbatim>\<open>self.stdin.write\<close> of a subprocess\<close>
  | Popen "string list"      \<comment> \<open>a subprocess started by \<^verbatim>\<open>RealTimeSubprocess\<close>\<close>
  | PexpectRun string        \<comment> \<open>a command line handed to \<^verbatim>\<open>pexpect.run\<close>\<close>

record sys =
  trace :: "event list"
  replies :: "(py_exception + string) list"
  paths :: "string list"

datatype 'a outcome = Return 'a | Raise py_exception | Diverge

type_synonym 'a action = "sys \<Rightarrow> 'a outcome \<times> sys"

definition ret :: "'a \<Rightarrow> 'a action" where
  "ret x = (\<lambda>s. (Return x, s))"

definition raise :: "py_exception \<Rightarrow> 'a action" where
  "raise e = (\<lambda>s. (Raise e, s))"

definition diverge :: "'a action" where
  "diverge = (\<lambda>s. (Diverge, s))"

definition bind :: "'a action \<Rightarrow> ('a \<Rightarrow> 'b action) \<Rightarrow> 'b action" where
  "bind m f =
     (\<lambda>s. case m s of
            (Return x, s') \<Rightarrow> f x s'
          | (Raise e, s') \<Rightarrow> (Raise e, s')
          | (Diverge, s') \<Rightarrow> (Diverge, s'))"

definition emit :: "event \<Rightarrow> unit action" where
  "emit ev = (\<lambda>s. (Return (), s\<lparr>trace := trace s @ [ev]\<rparr>))"

definition when_do :: "bool \<Rightarrow> unit action \<Rightarrow> unit action" where
  "when_do b m = (if b then m else ret ())"

definition lift_result :: "py_exception + 'a \<Rightarrow> 'a action" where
  \<comment> \<open>The result of a call that raises or returns and has no other effect.\<close>
  "lift_result r = (case r of Inl e \<Rightarrow> raise e | Inr x \<Rightarrow> ret x)"

subsection \<open>The world outside the kernel\<close>

text \<open>
  A subprocess is given by what the kernel sees of it: the chunks found in its stderr
  and stdout queues at each call of \<^verbatim>\<open>write_contents\<close> made while \<^verbatim>\<open>poll()\<close> is
  still \<^verbatim>\<open>None\<close>, then, when it exits, the chunks left for the last call and the
  return code. A subprocess that never exits shows its chunks and then empty queues
  for ever.
\<close>

type_synonym queues = "bytes list \<times> bytes list"

datatype process =
    Exits "queues list" queues int
  | Hangs "queues list"

text \<open>
  The library functions and the operating system are parameters of the model: the codecs
  (\<^verbatim>\<open>bytes.decode()\<close>, which may raise, \<^verbatim>\<open>decode(errors="backslashreplace")\<close>,
  \<^verbatim>\<open>str.encode()\<close>), \<^verbatim>\<open>repr\<close> on a string, the creation of the temporary
  directory, the opening of a file for writing, the two ways a command is run, and
  the removal of a file. Each of them may give any exception, an interrupt too.
  \<^verbatim>\<open>pexpect.run\<close> has a timeout of its own, so it returns or raises. A write to the
  pipe of a subprocess, the removal of the temporary directory and
  \<^verbatim>\<open>send_response\<close> (every \<open>emit\<close>) are taken to succeed.
\<close>

record world =
  decode :: "bytes \<Rightarrow> py_exception + string"
  decode_backslashreplace :: "bytes \<Rightarrow> string"
  encode :: "string \<Rightarrow> bytes"
  repr_str :: "string \<Rightarrow> string"
  mkdtemp :: "py_exception + string"
  open_write :: "string \<Rightarrow> string \<Rightarrow> py_exception option"
  popen :: "string list \<Rightarrow> py_exception + process"
  pexpect_run :: "string \<Rightarrow> py_exception + bytes \<times> int option"
  remove :: "string \<Rightarrow> py_exception option"

function digits :: "nat \<Rightarrow> string" where
  "digits n = (if n < 10 then [char_of (48 + n)]
               else digits (n div 10) @ [char_of (48 + n mod 10)])"
  by pat_completeness auto
termination
  by (relation "measure id") auto

declare digits.simps [simp del]

definition str_int :: "int \<Rightarrow> string" where
  \<comment> \<open>\<^verbatim>\<open>str\<close> of an integer, as the format strings apply it.\<close>
  "str_int i = (if i < 0 then CHR ''-'' # digits (nat (- i)) else digits (nat i))"

definition str_exit_code :: "int option \<Rightarrow> string" where
  \<comment> \<open>\<^verbatim>\<open>pexpect\<close> gives \<^verbatim>\<open>None\<close> for a child ended by a signal.\<close>
  "str_exit_code x = (case x of None \<Rightarrow> ''None'' | Some i \<Rightarrow> str_int i)"

definition repr_list :: "world \<Rightarrow> string list \<Rightarrow> string" where
  "repr_list w xs = ''['' @ join '', '' (map (repr_str w) xs) @ '']''"

definition str_magics :: "world \<Rightarrow> magics \<Rightarrow> string" where
  \<comment> \<open>\<^verbatim>\<open>str(magics)\<close>: the dictionary in the order its keys were inserted.\<close>
  "str_magics w m =
     ''{'verbose': '' @ (if verbose m then ''True'' else ''False'') @
     '', 'compiler': '' @ repr_str w (compiler m) @
     '', 'linker': '' @ repr_str w (linker m) @
     '', 'cflags': '' @ repr_list w (cflags m) @
     '', 'ldflags': '' @ repr_list w (ldflags m) @
     '', 'args': '' @ repr_list w (args m) @ ''}''"

definition filter_magics :: "world \<Rightarrow> string \<Rightarrow> (magics \<times> string) action" where
  \<comment> \<open>\<^verbatim>\<open>ASMKernel._filter_magics\<close>\<close>
  "filter_magics w code =
     bind (lift_result (filter_lines default_magics [] (splitlines code)))
       (\<lambda>(magics, actual_code).
          bind (when_do (verbose magics)
                  (emit (Stderr (''[ASM kernel] '' @ str_magics w magics @ [CHR 0x0A]))))
            (\<lambda>_. ret (magics, actual_code)))"

section \<open>The streaming process\<close>

definition inputRequest :: string where
  "inputRequest = ''<inputRequest>''"

fun read_all_from_queue :: "bytes list \<Rightarrow> bytes" where
  \<comment> \<open>The chunks in the queue when \<^verbatim>\<open>qsize()\<close> is read, appended in order.\<close>
  "read_all_from_queue [] = []"
| "read_all_from_queue (chunk # q) = chunk @ read_all_from_queue q"

fun find_from :: "nat \<Rightarrow> string \<Rightarrow> string \<Rightarrow> int" where
  "find_from i [] sub = (if sub = [] then int i else - 1)"
| "find_from i (c # cs) sub =
     (if startswith (c # cs) sub then int i else find_from (Suc i) cs sub)"

definition find :: "string \<Rightarrow> string \<Rightarrow> int" where
  \<comment> \<open>\<^verbatim>\<open>s.find(sub)\<close>: the lowest index, or -1.\<close>
  "find s sub = find_from 0 s sub"

function replace_by_empty :: "string \<Rightarrow> string \<Rightarrow> string" where
  \<comment> \<open>\<^verbatim>\<open>s.replace(old, '')\<close>: the occurrences from the left, none overlapping.\<close>
  "replace_by_empty old [] = []"
| "replace_by_empty old (c # cs) =
     (if old \<noteq> [] \<and> startswith (c # cs) old
      then replace_by_empty old (drop (length old) (c # cs))
      else c # replace_by_empty old cs)"
  by pat_completeness auto
termination
  by (relation "measure (\<lambda>(old, s). length s)") auto

fun await_line :: "(py_exception + string) list \<Rightarrow> string outcome \<times> nat \<times> (py_exception + string) list" where
  \<comment> \<open>\<^verbatim>\<open>while(len(readLine) == 0): readLine = self._read_from_stdin()\<close> against the
      answers to come: the line, the number of calls made, the answers left. With no
      answer left the call never returns.\<close>
  "await_line [] = (Diverge, 1, [])"
| "await_line (Inl e # rs) = (Raise e, 1, rs)"
| "await_line (Inr line # rs) =
     (if length line = 0
      then (case await_line rs of (r, n, rs') \<Rightarrow> (r, Suc n, rs'))
      else (Return line, 1, rs))"

definition read_line_loop :: "string action" where
  "read_line_loop =
     (\<lambda>s. case await_line (replies s) of
            (r, n, rs') \<Rightarrow> (r, s\<lparr>trace := trace s @ replicate n RawInput, replies := rs'\<rparr>))"

definition write_contents :: "world \<Rightarrow> queues \<Rightarrow> unit action" where
  \<comment> \<open>\<^verbatim>\<open>RealTimeSubprocess.write_contents\<close>, on the queues as this call finds them.\<close>
  "write_contents w q =
     (let stderr_contents = read_all_from_queue (fst q) in
      bind (if stderr_contents \<noteq> []
            then bind (lift_result (decode w stderr_contents)) (\<lambda>text. emit (Stderr text))
            else ret ())
        (\<lambda>_.
          let stdout_contents = read_all_from_queue (snd q) in
          if stdout_contents \<noteq> []
          then bind (lift_result (decode w stdout_contents))
                 (\<lambda>contents.
                    let start = find contents inputRequest in
                    if start \<ge> 0
                    then (let contents = replace_by_empty inputRequest contents in
                          bind (when_do (length contents > 0) (emit (Stdout contents)))
                            (\<lambda>_. bind read_line_loop
                               (\<lambda>readLine.
                                  let readLine = readLine @ [CHR 0x0A] in
                                  emit (StdinWrite (encode w readLine)))))
                    else emit (Stdout contents))
          else ret ()))"

fun poll_loop :: "world \<Rightarrow> queues list \<Rightarrow> unit action" where
  \<comment> \<open>\<^verbatim>\<open>while pc.poll() is None: pc.write_contents()\<close>, one round for each state of
      the queues seen while the subprocess runs.\<close>
  "poll_loop w [] = ret ()"
| "poll_loop w (q # qs) = bind (write_contents w q) (\<lambda>_. poll_loop w qs)"

fun run_to_exit :: "world \<Rightarrow> process \<Rightarrow> int action" where
  \<comment> \<open>The loop, the last \<^verbatim>\<open>write_contents()\<close> and the read of \<^verbatim>\<open>returncode\<close>.\<close>
  "run_to_exit w (Exits qs final rc) =
     bind (poll_loop w qs) (\<lambda>_. bind (write_contents w final) (\<lambda>_. ret rc))"
| "run_to_exit w (Hangs qs) = bind (poll_loop w qs) (\<lambda>_. diverge)"

section \<open>The kernel\<close>

record kernel =
  files :: "string list"
  execution_count :: nat

definition ASMKernel_init :: kernel where
  \<comment> \<open>\<^verbatim>\<open>ASMKernel.__init__\<close>; the counter is the base class's.\<close>
  "ASMKernel_init = \<lparr>files = [], execution_count = 0\<rparr>"

record reply =
  status :: string
  reply_execution_count :: nat
  payload :: "string list"
  user_expressions :: "(string \<times> string) list"

definition ok_reply :: "kernel \<Rightarrow> reply" where
  \<comment> \<open>The dictionary the source returns at lines 197, 210, 223 and 231.\<close>
  "ok_reply k =
     \<lparr>status = ''ok'', reply_execution_count = execution_count k,
      payload = [], user_expressions = []\<rparr>"

definition create_jupyter_subprocess :: "world \<Rightarrow> string list \<Rightarrow> process action" where
  "create_jupyter_subprocess w cmd =
     bind (emit (Popen cmd)) (\<lambda>_. lift_result (popen w cmd))"

definition compile_code :: "world \<Rightarrow> string \<Rightarrow> string \<Rightarrow> magics \<Rightarrow> process action" where
  "compile_code w source_filename object_filename magics =
     (let args = [compiler magics] @ cflags magics @ [''-o'', object_filename] @ [source_filename];
          str_args = join '' '' args in
      bind (when_do (verbose magics)
              (emit (Stderr (''[ASM kernel] Compiling with:  '' @ str_args @ '' '' @ [CHR 0x0A]))))
        (\<lambda>_. create_jupyter_subprocess w args))"

definition link_code :: "world \<Rightarrow> string \<Rightarrow> string \<Rightarrow> magics \<Rightarrow> process action" where
  "link_code w object_filename binary_filename magics =
     (let args = [linker magics] @ ldflags magics @ [''-o'', binary_filename, object_filename];
          str_args = join '' '' args in
      bind (when_do (verbose magics)
              (emit (Stderr (''[ASM kernel] Linking with:    '' @ str_args @ '' '' @ [CHR 0x0A]))))
        (\<lambda>_. create_jupyter_subprocess w args))"

subsection \<open>The workspace\<close>

definition rmtree :: "string \<Rightarrow> string list \<Rightarrow> string list" where
  \<comment> \<open>The paths left when the directory and all below it are removed.\<close>
  "rmtree d ps = filter (\<lambda>p. p \<noteq> d \<and> \<not> startswith p (d @ ''/'')) ps"

definition with_temporary_directory :: "world \<Rightarrow> (string \<Rightarrow> 'a action) \<Rightarrow> 'a action" where
  \<comment> \<open>\<^verbatim>\<open>with tempfile.TemporaryDirectory() as tmpdirname:\<close> the directory is removed
      when the block is left, by its end, a \<^verbatim>\<open>return\<close> or an exception.\<close>
  "with_temporary_directory w body =
     (\<lambda>s. case mkdtemp w of
            Inl e \<Rightarrow> (Raise e, s)
          | Inr tmpdirname \<Rightarrow>
              (case body tmpdirname (s\<lparr>paths := tmpdirname # paths s\<rparr>) of
                 (Diverge, s') \<Rightarrow> (Diverge, s')
               | (r, s') \<Rightarrow> (r, s'\<lparr>paths := rmtree tmpdirname (paths s')\<rparr>)))"

definition write_file :: "world \<Rightarrow> string \<Rightarrow> string \<Rightarrow> unit action" where
  \<comment> \<open>\<^verbatim>\<open>with open(name, "w") as f: f.write(text)\<close>\<close>
  "write_file w name text =
     (\<lambda>s. case open_write w name text of
            Some e \<Rightarrow> (Raise e, s)
          | None \<Rightarrow> (Return (), s\<lparr>paths := name # paths s\<rparr>))"

subsection \<open>The three stages\<close>

definition compile_stage :: "world \<Rightarrow> magics \<Rightarrow> string \<Rightarrow> string \<Rightarrow> int action" where
  \<comment> \<open>Lines 181 to 192, up to the read of \<^verbatim>\<open>pc.returncode\<close>.\<close>
  "compile_stage w magics code tmpdirname =
     bind (when_do (verbose magics)
             (emit (Stderr (''[ASM kernel] created temporary directory '' @ tmpdirname
                            @ '' '' @ [CHR 0x0A]))))
       (\<lambda>_.
         let source_file_name = tmpdirname @ ''/source.asm'' in
         bind (write_file w source_file_name code)
           (\<lambda>_.
             let object_file_name = tmpdirname @ ''/source.o'' in
             bind (compile_code w source_file_name object_file_name magics)
               (\<lambda>pc. run_to_exit w pc)))"

definition link_stage :: "world \<Rightarrow> magics \<Rightarrow> string \<Rightarrow> int action" where
  \<comment> \<open>Lines 201 to 205, up to the read of \<^verbatim>\<open>pl.returncode\<close>.\<close>
  "link_stage w magics tmpdirname =
     (let object_file_name = tmpdirname @ ''/source.o'';
          binary_file_name = tmpdirname @ ''/source.run'' in
      bind (link_code w object_file_name binary_file_name magics)
        (\<lambda>pl. run_to_exit w pl))"

definition execute_command :: "string \<Rightarrow> string list \<Rightarrow> string" where
  \<comment> \<open>Lines 214 and 215: \<^verbatim>\<open>str_args\<close>, the text handed to \<^verbatim>\<open>run\<close>.\<close>
  "execute_command binary_file_name arguments =
     (let args = [binary_file_name] @ arguments in join '' '' args)"

definition execute_stage :: "world \<Rightarrow> magics \<Rightarrow> string \<Rightarrow> unit action" where
  \<comment> \<open>Lines 214 to 222.\<close>
  "execute_stage w magics tmpdirname =
     (let binary_file_name = tmpdirname @ ''/source.run'';
          str_args = execute_command binary_file_name (args magics) in
      bind (when_do (verbose magics)
              (emit (Stderr (''[ASM kernel] Executing with:  '' @ str_args @ '' '' @ [CHR 0x0A]))))
        (\<lambda>_. bind (emit (PexpectRun str_args))
          (\<lambda>_. bind (lift_result (pexpect_run w str_args))
            (\<lambda>(output, exit_code).
               let output = decode_backslashreplace w output in
               bind (emit (Stdout output))
                 (\<lambda>_. when_do (verbose magics)
                         (emit (Stderr (''[ASM kernel] Executable exited with code ''
                                        @ str_exit_code exit_code @ '' '' @ [CHR 0x0A]))))))))"

definition compile_diagnostic :: "int \<Rightarrow> string" where
  "compile_diagnostic returncode =
     ''[C kernel] yasm exited with code '' @ str_int returncode
     @ '', the executable will not be executed''"

definition link_diagnostic :: "int \<Rightarrow> string" where
  "link_diagnostic returncode =
     ''[C kernel] gcc (linker) exited with code '' @ str_int returncode
     @ '', the executable will not be executed''"

definition pipeline :: "world \<Rightarrow> kernel \<Rightarrow> magics \<Rightarrow> string \<Rightarrow> string \<Rightarrow> reply action" where
  \<comment> \<open>The body of the \<^verbatim>\<open>with\<close> block, lines 181 to 222, and the value returned.\<close>
  "pipeline w k magics code tmpdirname =
     bind (compile_stage w magics code tmpdirname)
       (\<lambda>returncode.
          if returncode \<noteq> 0
          then bind (emit (Stderr (compile_diagnostic returncode))) (\<lambda>_. ret (ok_reply k))
          else bind (link_stage w magics tmpdirname)
                 (\<lambda>returncode.
                    if returncode \<noteq> 0
                    then bind (emit (Stderr (link_diagnostic returncode)))
                           (\<lambda>_. ret (ok_reply k))
                    else bind (execute_stage w magics tmpdirname)
                           (\<lambda>_. ret (ok_reply k))))"

definition do_compile_link_execute :: "world \<Rightarrow> kernel \<Rightarrow> string \<Rightarrow> reply action" where
  "do_compile_link_execute w k code =
     bind (filter_magics w code)
       (\<lambda>(magics, code). with_temporary_directory w (pipeline w k magics code))"

definition execute_diagnostic :: "py_exception \<Rightarrow> string" where
  "execute_diagnostic err = ''[ASM kernel] Error '' @ str_exception err @ '' '' @ [CHR 0x0A]"

definition do_execute :: "world \<Rightarrow> kernel \<Rightarrow> string \<Rightarrow> reply action" where
  \<comment> \<open>\<^verbatim>\<open>ASMKernel.do_execute\<close>; of its arguments only \<^verbatim>\<open>code\<close> is used. The
      handler is \<^verbatim>\<open>except Exception\<close>: what is not an \<^verbatim>\<open>Exception\<close> goes on.\<close>
  "do_execute w k code =
     (\<lambda>s. case do_compile_link_execute w k code s of
            (Raise err, s') \<Rightarrow>
              if is_Exception err
              then bind (emit (Stderr (execute_diagnostic err))) (\<lambda>_. ret (ok_reply k)) s'
              else (Raise err, s')
          | (Return output, s') \<Rightarrow> (Return output, s')
          | (Diverge, s') \<Rightarrow> (Diverge, s'))"

definition os_remove :: "world \<Rightarrow> string \<Rightarrow> unit action" where
  \<comment> \<open>\<^verbatim>\<open>os.remove(file)\<close> on a path that exists.\<close>
  "os_remove w file =
     (\<lambda>s. case remove w file of
            Some e \<Rightarrow> (Raise e, s)
          | None \<Rightarrow> (Return (), s\<lparr>paths := removeAll file (paths s)\<rparr>))"

fun cleanup_loop :: "world \<Rightarrow> string list \<Rightarrow> unit action" where
  \<comment> \<open>\<^verbatim>\<open>for file in self.files: if(os.path.exists(file)): os.remove(file)\<close>\<close>
  "cleanup_loop w [] = ret ()"
| "cleanup_loop w (file # fs) =
     bind (\<lambda>s. if file \<in> set (paths s) then os_remove w file s else (Return (), s))
       (\<lambda>_. cleanup_loop w fs)"

definition cleanup_files :: "world \<Rightarrow> kernel \<Rightarrow> unit action" where
  "cleanup_files w k = cleanup_loop w (files k)"

definition do_shutdown :: "world \<Rightarrow> kernel \<Rightarrow> bool \<Rightarrow> unit action" where
  "do_shutdown w k restart = cleanup_files w k"

subsection \<open>A session\<close>

datatype request = ExecuteRequest string | ShutdownRequest bool

definition handle_request :: "world \<Rightarrow> request \<Rightarrow> kernel \<Rightarrow> kernel action" where
  \<comment> \<open>One request and the kernel object after it; neither method assigns to an
      attribute of \<^verbatim>\<open>self\<close>.\<close>
  "handle_request w req k =
     (case req of
        ExecuteRequest code \<Rightarrow> bind (do_execute w k code) (\<lambda>_. ret k)
      | ShutdownRequest restart \<Rightarrow> bind (do_shutdown w k restart) (\<lambda>_. ret k))"

fun run_session :: "(world \<times> request) list \<Rightarrow> kernel \<Rightarrow> kernel action" where
  "run_session [] k = ret k"
| "run_session ((w, req) # rest) k = bind (handle_request w req k) (run_session rest)"

definition spawn_count :: "event list \<Rightarrow> nat" where
  \<comment> \<open>The number of subprocesses started in a trace.\<close>
  "spawn_count evs =
     length (filter (\<lambda>ev. case ev of Popen cmd \<Rightarrow> True | PexpectRun cmd \<Rightarrow> True | _ \<Rightarrow> False) evs)"

section \<open>Notions used in the statements\<close>

definition terminate_lines :: "string list \<Rightarrow> string" where
  \<comment> \<open>The lines, each followed by a newline: what the loop appends to \<^verbatim>\<open>actual_code\<close>.\<close>
  "terminate_lines ls = concat (map (\<lambda>line. line @ [CHR 0x0A]) ls)"

definition malformed :: "string \<Rightarrow> bool" where
  \<comment> \<open>A directive line whose remainder does not split into a key and a value.\<close>
  "malformed line = (startswith line '';%'' \<and> length (split_sep (CHR '':'') 2 (drop 2 line)) \<noteq> 2)"

definition newline_terminated :: "string \<Rightarrow> bool" where
  \<comment> \<open>The only line boundaries are newlines, and the last line has one.\<close>
  "newline_terminated code =
     (list_all (\<lambda>c. \<not> is_linebreak c \<or> c = CHR 0x0A) code \<and> (code = [] \<or> last code = CHR 0x0A))"

definition preserves :: "(sys \<Rightarrow> 'b) \<Rightarrow> 'a action \<Rightarrow> bool" where
  \<comment> \<open>The computation leaves an observation of the state as it was, however it ends.\<close>
  "preserves f m = (\<forall>s. f (snd (m s)) = f s)"

definition spawns :: "sys \<Rightarrow> nat" where
  \<comment> \<open>The subprocesses started so far.\<close>
  "spawns s = spawn_count (trace s)"










section \<open>A world for concrete runs\<close>

text \<open>
  The theorems below hold for every world. Where one is applied to a concrete input,
  this world and this initial state are used.
\<close>

definition ascii_decode :: "bytes \<Rightarrow> py_exception + string" where
  \<comment> \<open>A decoder that takes the bytes below 128 and refuses the others.\<close>
  "ascii_decode b =
     (if list_all (\<lambda>c. (of_char c :: nat) < 128) b then Inr b
      else Inl (UnicodeDecodeError ''invalid start byte''))"

definition ascii_world :: world where
  \<comment> \<open>Every command exits at once with code 0 and no output.\<close>
  "ascii_world =
     \<lparr>decode = ascii_decode,
      decode_backslashreplace = (\<lambda>b. b),
      encode = (\<lambda>s. s),
      repr_str = (\<lambda>s. [CHR 0x27] @ s @ [CHR 0x27]),
      mkdtemp = Inr ''/tmp/tmpq1'',
      open_write = (\<lambda>name text. None),
      popen = (\<lambda>cmd. Inr (Exits [] ([], []) 0)),
      pexpect_run = (\<lambda>cmd. Inr ([], Some 0)),
      remove = (\<lambda>file. None)\<rparr>"


definition initial_sys :: sys where
  "initial_sys = \<lparr>trace = [], replies = [], paths = []\<rparr>"

definition failing_compile_world :: world where
  \<comment> \<open>Every subprocess writes to stderr and exits with code 1.\<close>
  "failing_compile_world =
     ascii_world\<lparr>popen := (\<lambda>cmd. Inr (Exits [([''warning''], [])] ([''error: bad''], []) 1))\<rparr>"

definition failing_link_world :: world where
  \<comment> \<open>The assembler exits with code 0, the linker with code 1.\<close>
  "failing_link_world =
     ascii_world\<lparr>popen := (\<lambda>cmd. if take 1 cmd = [''gcc'']
                                 then Inr (Exits [] ([''undefined reference''], []) 1)
                                 else Inr (Exits [] ([], []) 0))\<rparr>"

section \<open>Properties of the directive parser\<close>

lemma filter_lines_no_directives:
  "\<forall>line \<in> set ls. \<not> startswith line '';%'' \<Longrightarrow>
   filter_lines m actual_code ls = Inr (m, actual_code @ terminate_lines ls)"
  by (induction ls arbitrary: actual_code) (simp_all add: terminate_lines_def)

lemma unpack2_error: "unpack2 parts = Inl e \<Longrightarrow> \<exists>msg. e = ValueError msg"
  by (auto simp: unpack2_def split: list.splits)

lemma unpack2_length: "length parts \<noteq> 2 \<Longrightarrow> \<exists>msg. unpack2 parts = Inl (ValueError msg)"
  by (auto simp: unpack2_def split: list.splits)

lemma parse_directive_error: "parse_directive line m = Inl e \<Longrightarrow> \<exists>msg. e = ValueError msg"
  by (auto simp: parse_directive_def split: sum.splits dest: unpack2_error)

lemma parse_directive_malformed:
  "length (split_sep (CHR '':'') 2 (drop 2 line)) \<noteq> 2 \<Longrightarrow> \<exists>msg. parse_directive line m = Inl (ValueError msg)"
  using unpack2_length [of "split_sep (CHR '':'') 2 (drop 2 line)"]
  by (auto simp: parse_directive_def)

lemma filter_lines_malformed:
  "line \<in> set ls \<Longrightarrow> malformed line \<Longrightarrow> \<exists>msg. filter_lines m actual_code ls = Inl (ValueError msg)"
proof (induction ls arbitrary: m actual_code)
  case Nil
  then show ?case by simp
next
  case (Cons l ls)
  show ?case
  proof (cases "startswith l '';%''")
    case False
    with Cons.prems have "line \<in> set ls" by (auto simp: malformed_def)
    from Cons.IH [OF this Cons.prems(2)] False show ?thesis by simp
  next
    case True
    show ?thesis
    proof (cases "parse_directive l m")
      case (Inl e)
      with parse_directive_error [OF Inl] True show ?thesis by auto
    next
      case (Inr m')
      have "line \<noteq> l"
      proof
        assume "line = l"
        with Cons.prems(2) have "length (split_sep (CHR '':'') 2 (drop 2 l)) \<noteq> 2"
          by (simp add: malformed_def)
        from parse_directive_malformed [OF this, of m] Inr show False by simp
      qed
      with Cons.prems have "line \<in> set ls" by simp
      from Cons.IH [OF this Cons.prems(2)] True Inr show ?thesis by simp
    qed
  qed
qed

lemma split_sep_absent: "sep \<notin> set s \<Longrightarrow> split_sep sep n s = [s]"
  by (cases n) simp_all

lemma count_after_first:
  "sep \<in> set s \<Longrightarrow>
   length (filter (\<lambda>c. c = sep) (tl (dropWhile (\<lambda>c. c \<noteq> sep) s))) = length (filter (\<lambda>c. c = sep) s) - 1"
  by (induction s) auto

lemma filter_nonempty_mem: "0 < length (filter (\<lambda>c. c = sep) s) \<Longrightarrow> sep \<in> set s"
  by (induction s) (auto split: if_splits)

lemma split_sep_twice:
  assumes "2 \<le> length (filter (\<lambda>c. c = sep) s)"
  shows "length (split_sep sep 2 s) = 3"
proof -
  from assms have "0 < length (filter (\<lambda>c. c = sep) s)" by linarith
  then have mem: "sep \<in> set s" by (rule filter_nonempty_mem)
  let ?r = "tl (dropWhile (\<lambda>c. c \<noteq> sep) s)"
  from assms count_after_first [OF mem] have "0 < length (filter (\<lambda>c. c = sep) ?r)" by linarith
  then have mem': "sep \<in> set ?r" by (rule filter_nonempty_mem)
  have "split_sep sep 2 s = takeWhile (\<lambda>c. c \<noteq> sep) s # split_sep sep 1 ?r"
    using mem by (simp add: numeral_2_eq_2)
  also have "split_sep sep 1 ?r = [takeWhile (\<lambda>c. c \<noteq> sep) ?r, tl (dropWhile (\<lambda>c. c \<noteq> sep) ?r)]"
    using mem' by simp
  finally show ?thesis by simp
qed

lemma terminate_lines_simps [simp]:
  "terminate_lines [] = []"
  "terminate_lines (l # ls) = l @ CHR 0x0A # terminate_lines ls"
  by (simp_all add: terminate_lines_def)

lemma is_linebreak_CR [simp]: "is_linebreak (CHR 0x0D)"
  by (simp add: is_linebreak_def)

lemma is_linebreak_LF [simp]: "is_linebreak (CHR 0x0A)"
  by (simp add: is_linebreak_def)

lemma terminate_splitlines_from:
  "list_all (\<lambda>c. \<not> is_linebreak c \<or> c = CHR 0x0A) s \<Longrightarrow>
   terminate_lines (splitlines_from acc s) =
     rev acc @ s @ (if (s = [] \<and> acc = []) \<or> (s \<noteq> [] \<and> last s = CHR 0x0A) then [] else [CHR 0x0A])"
proof (induction s arbitrary: acc)
  case Nil
  then show ?case by simp
next
  case (Cons c cs)
  then show ?case by (cases "is_linebreak c") auto
qed

lemma splitlines_from_no_linebreak:
  "\<forall>c \<in> set acc. \<not> is_linebreak c \<Longrightarrow> l \<in> set (splitlines_from acc s) \<Longrightarrow> c \<in> set l \<Longrightarrow>
   \<not> is_linebreak c"
proof (induction acc s arbitrary: l rule: splitlines_from.induct)
  case (1 acc)
  then show ?case by (auto split: if_splits)
next
  case (2 acc c cs)
  show ?case
  proof (cases "c = CHR 0x0D")
    case True
    show ?thesis
    proof (cases cs)
      case Nil
      with True "2.prems" show ?thesis by auto
    next
      case (Cons d ds)
      show ?thesis
      proof (cases "d = CHR 0x0A")
        case dt: True
        from "2.prems" True Cons dt have "l = rev acc \<or> l \<in> set (splitlines_from [] ds)" by auto
        then show ?thesis
          using "2.IH"(1) [OF True Cons dt _ _ "2.prems"(3)] "2.prems" by auto
      next
        case df: False
        from "2.prems" True Cons df have "l = rev acc \<or> l \<in> set (splitlines_from [] cs)" by auto
        then show ?thesis
          using "2.IH"(2) [OF True Cons df _ _ "2.prems"(3)] "2.prems" by auto
      qed
    qed
  next
    case False
    show ?thesis
    proof (cases "is_linebreak c")
      case lb: True
      from "2.prems" False lb have "l = rev acc \<or> l \<in> set (splitlines_from [] cs)" by auto
      then show ?thesis
        using "2.IH"(3) [OF False lb _ _ "2.prems"(3)] "2.prems" by auto
    next
      case nlb: False
      from "2.prems" False nlb have "l \<in> set (splitlines_from (c # acc) cs)" by auto
      then show ?thesis
        using "2.IH"(4) [OF False nlb _ _ "2.prems"(3)] "2.prems" nlb by auto
    qed
  qed
qed

lemma terminate_lines_linebreaks:
  "\<forall>l \<in> set ls. \<forall>c \<in> set l. \<not> is_linebreak c \<Longrightarrow>
   list_all (\<lambda>c. \<not> is_linebreak c \<or> c = CHR 0x0A) (terminate_lines ls)"
  by (induction ls) (auto simp: list_all_iff)

lemma terminate_splitlines_fixed:
  "terminate_lines (splitlines code) = code \<longleftrightarrow> newline_terminated code"
proof
  assume eq: "terminate_lines (splitlines code) = code"
  have "\<forall>l \<in> set (splitlines code). \<forall>c \<in> set l. \<not> is_linebreak c"
    using splitlines_from_no_linebreak [of "[]" _ code] by (auto simp: splitlines_def)
  from terminate_lines_linebreaks [OF this] eq
  have only: "list_all (\<lambda>c. \<not> is_linebreak c \<or> c = CHR 0x0A) code" by simp
  from terminate_splitlines_from [OF only, of "[]"] eq
  have "code = [] \<or> last code = CHR 0x0A"
    by (auto simp: splitlines_def split: if_splits)
  with only show "newline_terminated code" by (simp add: newline_terminated_def)
next
  assume "newline_terminated code"
  then show "terminate_lines (splitlines code) = code"
    using terminate_splitlines_from [of code "[]"]
    by (auto simp: newline_terminated_def splitlines_def)
qed

lemma apply_directive_args:
  "apply_directive ''args'' val m =
     fold (\<lambda>argument m. m\<lparr>args := args m @ [strip_chars (CHR 0x22) argument]\<rparr>) (findall_args val) m"
  by (simp add: apply_directive_def)

lemma findall_args_example:
  "findall_args ('' '' @ [CHR 0x22] @ ''a b'' @ [CHR 0x22] @ '' c'') =
     [[CHR 0x22] @ ''a b'' @ [CHR 0x22], ''c'']"
  by code_simp

text \<open>
  Claim C7. The value of the directive \<^verbatim>\<open>args: "a b" c\<close> is cut by the pattern into
  the quoted segment and the word \<^verbatim>\<open>c\<close>; stripping the quotes gives \<^verbatim>\<open>a b\<close> and
  \<^verbatim>\<open>c\<close>, and the two are appended to the argument list in that order. The value is
  taken with and without the blank that follows the colon in the directive line.
\<close>

theorem args_tokenization:
  "findall_args ([CHR 0x22] @ ''a b'' @ [CHR 0x22] @ '' c'') = [[CHR 0x22] @ ''a b'' @ [CHR 0x22], ''c'']
   \<and> map (strip_chars (CHR 0x22)) [[CHR 0x22] @ ''a b'' @ [CHR 0x22], ''c''] = [''a b'', ''c'']
   \<and> args (apply_directive ''args'' ('' '' @ [CHR 0x22] @ ''a b'' @ [CHR 0x22] @ '' c'') m)
       = args m @ [''a b'', ''c'']
   \<and> parse_directive ('';%args: '' @ [CHR 0x22] @ ''a b'' @ [CHR 0x22] @ '' c'') default_magics
       = Inr (default_magics\<lparr>args := [''a b'', ''c'']\<rparr>)"
proof -
  have a: "findall_args ([CHR 0x22] @ ''a b'' @ [CHR 0x22] @ '' c'')
           = [[CHR 0x22] @ ''a b'' @ [CHR 0x22], ''c'']"
    by code_simp
  have b: "map (strip_chars (CHR 0x22)) [[CHR 0x22] @ ''a b'' @ [CHR 0x22], ''c''] = [''a b'', ''c'']"
    by (simp add: strip_chars_def)
  have c: "args (apply_directive ''args'' ('' '' @ [CHR 0x22] @ ''a b'' @ [CHR 0x22] @ '' c'') m)
           = args m @ [''a b'', ''c'']"
    unfolding apply_directive_args findall_args_example by (simp add: strip_chars_def)
  have d: "parse_directive ('';%args: '' @ [CHR 0x22] @ ''a b'' @ [CHR 0x22] @ '' c'') default_magics
           = Inr (default_magics\<lparr>args := [''a b'', ''c'']\<rparr>)"
    by code_simp
  from a b c d show ?thesis by blast
qed

lemma filter_magics_raises:
  "filter_lines default_magics [] (splitlines code) = Inl e \<Longrightarrow>
   filter_magics w code s = (Raise e, s)"
  by (simp add: filter_magics_def lift_result_def bind_def raise_def)

lemma filter_magics_returns:
  "filter_lines default_magics [] (splitlines code) = Inr (m, actual_code) \<Longrightarrow>
   filter_magics w code s =
     (Return (m, actual_code),
      if verbose m
      then s\<lparr>trace := trace s @ [Stderr (''[ASM kernel] '' @ str_magics w m @ [CHR 0x0A])]\<rparr>
      else s)"
  by (simp add: filter_magics_def lift_result_def bind_def ret_def when_do_def emit_def)

lemma do_compile_link_execute_parse_error:
  "filter_magics w code s = (Raise e, s') \<Longrightarrow> do_compile_link_execute w k code s = (Raise e, s')"
  by (simp add: do_compile_link_execute_def bind_def)

lemma do_execute_caught:
  "do_compile_link_execute w k code s = (Raise e, s') \<Longrightarrow> is_Exception e \<Longrightarrow>
   do_execute w k code s =
     (Return (ok_reply k), s'\<lparr>trace := trace s' @ [Stderr (execute_diagnostic e)]\<rparr>)"
  by (simp add: do_execute_def bind_def emit_def ret_def)

lemma malformed_submission:
  assumes "line \<in> set (splitlines code)" and "malformed line"
  shows "\<exists>msg. filter_magics w code s = (Raise (ValueError msg), s)
          \<and> do_compile_link_execute w k code s = (Raise (ValueError msg), s)
          \<and> do_execute w k code s =
              (Return (ok_reply k),
               s\<lparr>trace := trace s @ [Stderr (execute_diagnostic (ValueError msg))]\<rparr>)"
proof -
  from filter_lines_malformed [OF assms] obtain msg
    where "filter_lines default_magics [] (splitlines code) = Inl (ValueError msg)" by blast
  then have a: "filter_magics w code s = (Raise (ValueError msg), s)"
    by (rule filter_magics_raises)
  then have b: "do_compile_link_execute w k code s = (Raise (ValueError msg), s)"
    by (rule do_compile_link_execute_parse_error)
  from a b do_execute_caught [OF b] show ?thesis by simp
qed

text \<open>
  Claim C5. When a line of the text starts with the directive prefix and what follows
  the prefix has no colon, the unpacking of that line raises \<^verbatim>\<open>ValueError\<close>; the
  parser raises a \<^verbatim>\<open>ValueError\<close> for the text with no effect done, the pipeline
  raises it before any stage (the state is unchanged: no directory, no subprocess), and
  \<^verbatim>\<open>do_execute\<close> catches it, writes the diagnostic and returns the ok reply.
\<close>

theorem directive_without_separator:
  assumes "line \<in> set (splitlines code)" and "startswith line '';%''"
    and "CHR '':'' \<notin> set (drop 2 line)"
  shows "parse_directive line m
           = Inl (ValueError ''not enough values to unpack (expected 2, got 1)'')
         \<and> (\<exists>msg. filter_magics w code s = (Raise (ValueError msg), s)
               \<and> do_compile_link_execute w k code s = (Raise (ValueError msg), s)
               \<and> do_execute w k code s =
                   (Return (ok_reply k),
                    s\<lparr>trace := trace s @ [Stderr (execute_diagnostic (ValueError msg))]\<rparr>))"
proof -
  have parts: "split_sep (CHR '':'') 2 (drop 2 line) = [drop 2 line]"
    using assms(3) by (rule split_sep_absent)
  then have "malformed line" using assms(2) by (simp add: malformed_def)
  from malformed_submission [OF assms(1) this] parts show ?thesis
    by (simp add: parse_directive_def unpack2_def)
qed

text \<open>
  Claim C5 at the one-line text \<^verbatim>\<open>;%cflags -g\<close>.
\<close>

theorem directive_without_separator_witness:
  "\<exists>msg. do_execute ascii_world ASMKernel_init '';%cflags -g'' initial_sys =
      (Return (ok_reply ASMKernel_init),
       initial_sys\<lparr>trace := trace initial_sys @ [Stderr (execute_diagnostic (ValueError msg))]\<rparr>)"
proof -
  have 1: "'';%cflags -g'' \<in> set (splitlines '';%cflags -g'')" by code_simp
  have 2: "startswith '';%cflags -g'' '';%''" by code_simp
  have 3: "CHR '':'' \<notin> set (drop 2 '';%cflags -g'')" by simp
  from directive_without_separator [OF 1 2 3] show ?thesis by blast
qed

text \<open>
  Claim C10. When what follows the prefix of a directive line has two colons or more,
  \<^verbatim>\<open>split(":", 2)\<close> gives three parts, the unpacking into a key and a value raises
  \<^verbatim>\<open>ValueError\<close>, and the submission ends as it does for a line with no colon: the
  parser and the pipeline raise a \<^verbatim>\<open>ValueError\<close> with no effect done, and
  \<^verbatim>\<open>do_execute\<close> catches it, writes the diagnostic and returns the ok reply.
\<close>

theorem directive_with_two_separators:
  assumes "line \<in> set (splitlines code)" and "startswith line '';%''"
    and "2 \<le> length (filter (\<lambda>c. c = CHR '':'') (drop 2 line))"
  shows "length (split_sep (CHR '':'') 2 (drop 2 line)) = 3
         \<and> parse_directive line m = Inl (ValueError ''too many values to unpack (expected 2)'')
         \<and> (\<exists>msg. filter_magics w code s = (Raise (ValueError msg), s)
               \<and> do_compile_link_execute w k code s = (Raise (ValueError msg), s)
               \<and> do_execute w k code s =
                   (Return (ok_reply k),
                    s\<lparr>trace := trace s @ [Stderr (execute_diagnostic (ValueError msg))]\<rparr>))"
proof -
  have three: "length (split_sep (CHR '':'') 2 (drop 2 line)) = 3"
    using assms(3) by (rule split_sep_twice)
  then have "malformed line" using assms(2) by (simp add: malformed_def)
  moreover have "parse_directive line m = Inl (ValueError ''too many values to unpack (expected 2)'')"
    using three by (auto simp: parse_directive_def unpack2_def split: list.splits)
  ultimately show ?thesis using malformed_submission [OF assms(1)] three by blast
qed

text \<open>
  Claim C10 at the one-line text \<^verbatim>\<open>;%ldflags: -L/a:/b\<close>.
\<close>

theorem directive_with_two_separators_witness:
  "length (split_sep (CHR '':'') 2 (drop 2 '';%ldflags: -L/a:/b'')) = 3
   \<and> (\<exists>msg. do_execute ascii_world ASMKernel_init '';%ldflags: -L/a:/b'' initial_sys =
      (Return (ok_reply ASMKernel_init),
       initial_sys\<lparr>trace := trace initial_sys @ [Stderr (execute_diagnostic (ValueError msg))]\<rparr>))"
proof -
  have 1: "'';%ldflags: -L/a:/b'' \<in> set (splitlines '';%ldflags: -L/a:/b'')" by code_simp
  have 2: "startswith '';%ldflags: -L/a:/b'' '';%''" by code_simp
  have 3: "2 \<le> length (filter (\<lambda>c. c = CHR '':'') (drop 2 '';%ldflags: -L/a:/b''))" by simp
  from directive_with_two_separators [OF 1 2 3] show ?thesis by blast
qed

text \<open>
  Claim C4 as stated fails: the text \<^verbatim>\<open>nop\<close> has no directive line and no final
  newline, and the residual code is \<^verbatim>\<open>nop\<close> followed by a newline.
\<close>

theorem residual_code_counterexample:
  "splitlines ''nop'' = [''nop''] \<and> \<not> startswith ''nop'' '';%''
   \<and> fst (filter_magics ascii_world ''nop'' initial_sys) = Return (default_magics, ''nop'' @ [CHR 0x0A])
   \<and> ''nop'' @ [CHR 0x0A] \<noteq> ''nop''"
proof -
  have 1: "splitlines ''nop'' = [''nop'']" by code_simp
  have 2: "\<not> startswith ''nop'' '';%''" by code_simp
  have "filter_lines default_magics [] (splitlines ''nop'') = Inr (default_magics, ''nop'' @ [CHR 0x0A])"
    unfolding 1 using 2 by simp
  from filter_magics_returns [OF this] 1 2 show ?thesis by simp
qed

text \<open>
  Claim C4, amended. For a text with no directive line the configuration is the
  default one and the residual code is the lines of the text, each followed by a
  newline (the default configuration is verbose, so it is echoed on stderr). The
  residual code equals the text exactly when the only line boundaries of the text are
  newline characters and the text is empty or ends with one.
\<close>

theorem filter_magics_without_directives:
  assumes "\<forall>line \<in> set (splitlines code). \<not> startswith line '';%''"
  shows "filter_magics w code s =
           (Return (default_magics, terminate_lines (splitlines code)),
            s\<lparr>trace := trace s @ [Stderr (''[ASM kernel] '' @ str_magics w default_magics @ [CHR 0x0A])]\<rparr>)
         \<and> (terminate_lines (splitlines code) = code \<longleftrightarrow> newline_terminated code)"
proof -
  from filter_lines_no_directives [OF assms, of default_magics "[]"]
  have "filter_lines default_magics [] (splitlines code)
          = Inr (default_magics, terminate_lines (splitlines code))" by simp
  from filter_magics_returns [OF this] terminate_splitlines_fixed show ?thesis
    by (simp add: default_magics_def)
qed

text \<open>
  Claim C4, amended, at a text of three lines ended by newlines.
\<close>

theorem filter_magics_without_directives_witness:
  "fst (filter_magics ascii_world (''nop'' @ [CHR 0x0A, CHR 0x0A] @ ''ret'' @ [CHR 0x0A]) initial_sys)
     = Return (default_magics, ''nop'' @ [CHR 0x0A, CHR 0x0A] @ ''ret'' @ [CHR 0x0A])"
proof -
  let ?code = "''nop'' @ [CHR 0x0A, CHR 0x0A] @ ''ret'' @ [CHR 0x0A]"
  have 1: "\<forall>line \<in> set (splitlines ?code). \<not> startswith line '';%''" by code_simp
  have 2: "newline_terminated ?code" by code_simp
  from filter_magics_without_directives [OF 1, of ascii_world initial_sys] 2 show ?thesis by simp
qed

section \<open>Properties of the streaming process\<close>

lemma await_line_after_empty:
  "line \<noteq> [] \<Longrightarrow> await_line (replicate n (Inr []) @ Inr line # rest) = (Return line, Suc n, rest)"
  by (induction n) simp_all

lemma read_line_loop_after_empty:
  "line \<noteq> [] \<Longrightarrow> replies s = replicate n (Inr []) @ Inr line # rest \<Longrightarrow>
   read_line_loop s = (Return line, s\<lparr>trace := trace s @ replicate (Suc n) RawInput, replies := rest\<rparr>)"
  by (simp add: read_line_loop_def await_line_after_empty)

lemma find_hello: "find ''hello<inputRequest>'' inputRequest = 5"
  by code_simp

lemma replace_hello: "replace_by_empty inputRequest ''hello<inputRequest>'' = ''hello''"
  by code_simp

text \<open>
  Claim C2. A call of \<^verbatim>\<open>write_contents\<close> finds nothing in the stderr queue and
  chunks that make up \<^verbatim>\<open>hello<inputRequest>\<close> in the stdout queue, which decode to the
  same text; the front end answers \<open>n\<close> empty lines and then \<^verbatim>\<open>42\<close>. The call
  writes \<^verbatim>\<open>hello\<close> to stdout first, then asks for input \<open>n + 1\<close> times, then writes
  the encoding of \<^verbatim>\<open>42\<close> and a newline to the subprocess, and returns. The token is in
  no event of the trace.
\<close>

theorem write_contents_input_request:
  assumes "read_all_from_queue stderr_queue = []"
    and "read_all_from_queue stdout_queue = ''hello<inputRequest>''"
    and "decode w ''hello<inputRequest>'' = Inr ''hello<inputRequest>''"
    and "replies s = replicate n (Inr []) @ Inr ''42'' # rest"
  shows "write_contents w (stderr_queue, stdout_queue) s =
           (Return (),
            s\<lparr>trace := trace s @ [Stdout ''hello''] @ replicate (Suc n) RawInput
                         @ [StdinWrite (encode w (''42'' @ [CHR 0x0A]))],
              replies := rest\<rparr>)"
proof -
  let ?s1 = "s\<lparr>trace := trace s @ [Stdout ''hello'']\<rparr>"
  have "replies ?s1 = replicate n (Inr []) @ Inr ''42'' # rest" using assms(4) by simp
  from read_line_loop_after_empty [OF _ this]
  have loop: "read_line_loop ?s1 =
      (Return ''42'', ?s1\<lparr>trace := trace ?s1 @ replicate (Suc n) RawInput, replies := rest\<rparr>)"
    by simp
  show ?thesis
    using assms(1,2,3) loop
    by (simp add: write_contents_def bind_def ret_def lift_result_def when_do_def emit_def
        find_hello replace_hello Let_def del: replace_by_empty.simps)
qed

text \<open>
  Claim C2 with the token cut across two chunks and one empty answer before the line.
\<close>

theorem write_contents_input_request_witness:
  "write_contents ascii_world ([], [''hello<input'', ''Request>''])
     (initial_sys\<lparr>replies := [Inr [], Inr ''42'']\<rparr>) =
   (Return (),
    initial_sys\<lparr>trace := [Stdout ''hello'', RawInput, RawInput, StdinWrite (''42'' @ [CHR 0x0A])],
                replies := []\<rparr>)"
proof -
  have 1: "read_all_from_queue [] = ([] :: bytes)" by simp
  have 2: "read_all_from_queue [''hello<input'', ''Request>''] = ''hello<inputRequest>''" by simp
  have 3: "decode ascii_world ''hello<inputRequest>'' = Inr ''hello<inputRequest>''"
    by (simp add: ascii_world_def ascii_decode_def)
  have 4: "replies (initial_sys\<lparr>replies := [Inr [], Inr ''42'']\<rparr>)
             = replicate 1 (Inr []) @ Inr ''42'' # []" by simp
  from write_contents_input_request [OF 1 2 3 4] show ?thesis
    by (simp add: ascii_world_def initial_sys_def)
qed


section \<open>What a computation leaves unchanged\<close>

lemma preservesD: "preserves f m \<Longrightarrow> m s = (r, s') \<Longrightarrow> f s' = f s"
  by (metis preserves_def snd_conv)

lemma preserves_ret: "preserves f (ret x)"
  by (simp add: preserves_def ret_def)

lemma preserves_raise: "preserves f (raise e)"
  by (simp add: preserves_def raise_def)

lemma preserves_diverge: "preserves f diverge"
  by (simp add: preserves_def diverge_def)

lemma preserves_bind:
  assumes "preserves f m" and "\<And>x. preserves f (g x)"
  shows "preserves f (bind m g)"
proof -
  have "f (snd (bind m g s)) = f s" for s
  proof (cases "m s")
    case (Pair r s')
    then have s': "f s' = f s" using assms(1) by (rule preservesD [rotated])
    show ?thesis
    proof (cases r)
      case (Return x)
      from assms(2) [of x] have "f (snd (g x s')) = f s'" by (simp add: preserves_def)
      with Pair Return s' show ?thesis by (simp add: bind_def)
    qed (use Pair s' in \<open>simp_all add: bind_def\<close>)
  qed
  then show ?thesis by (simp add: preserves_def)
qed

lemma preserves_when_do: "preserves f m \<Longrightarrow> preserves f (when_do b m)"
  by (simp add: when_do_def preserves_ret)

lemma preserves_lift_result: "preserves f (lift_result r)"
  by (cases r) (simp_all add: lift_result_def preserves_ret preserves_raise)

lemma preserves_emit_paths: "preserves (\<lambda>s. h (paths s)) (emit ev)"
  by (simp add: preserves_def emit_def)

lemma preserves_emit_spawns:
  "(case ev of Popen cmd \<Rightarrow> False | PexpectRun cmd \<Rightarrow> False | _ \<Rightarrow> True) \<Longrightarrow> preserves spawns (emit ev)"
  by (cases ev) (simp_all add: preserves_def emit_def spawns_def spawn_count_def)

lemma preserves_read_line_loop_paths: "preserves (\<lambda>s. h (paths s)) read_line_loop"
  by (simp add: preserves_def read_line_loop_def split: prod.splits)

lemma preserves_read_line_loop_spawns: "preserves spawns read_line_loop"
  by (simp add: preserves_def read_line_loop_def spawns_def spawn_count_def split: prod.splits)

lemmas preserves_intros =
  preserves_ret preserves_raise preserves_diverge preserves_bind preserves_when_do
  preserves_lift_result preserves_emit_paths preserves_read_line_loop_paths
  preserves_read_line_loop_spawns

lemma preserves_write_contents_paths: "preserves (\<lambda>s. h (paths s)) (write_contents w q)"
  unfolding write_contents_def Let_def
  by (intro preserves_intros conjI impI allI | simp only: split: if_split)+

lemma preserves_write_contents_spawns: "preserves spawns (write_contents w q)"
  unfolding write_contents_def Let_def
  by (intro preserves_intros preserves_emit_spawns conjI impI allI | simp only: split: if_split | simp)+


lemma preserves_poll_loop_paths: "preserves (\<lambda>s. h (paths s)) (poll_loop w qs)"
  by (induction qs) (simp_all add: preserves_ret preserves_bind preserves_write_contents_paths)

lemma preserves_poll_loop_spawns: "preserves spawns (poll_loop w qs)"
  by (induction qs) (simp_all add: preserves_ret preserves_bind preserves_write_contents_spawns)

lemma preserves_run_to_exit_paths: "preserves (\<lambda>s. h (paths s)) (run_to_exit w p)"
  by (cases p)
     (simp_all add: preserves_intros preserves_poll_loop_paths preserves_write_contents_paths)

lemma preserves_run_to_exit_spawns: "preserves spawns (run_to_exit w p)"
  by (cases p)
     (simp_all add: preserves_intros preserves_poll_loop_spawns preserves_write_contents_spawns)

lemma preserves_filter_magics_paths: "preserves (\<lambda>s. h (paths s)) (filter_magics w code)"
  unfolding filter_magics_def
  by (intro preserves_intros | simp only: split_def)+

lemma preserves_filter_magics_spawns: "preserves spawns (filter_magics w code)"
  unfolding filter_magics_def
  by (intro preserves_intros preserves_emit_spawns | simp only: split_def | simp)+

lemma preserves_write_file_spawns: "preserves spawns (write_file w name text)"
  by (simp add: preserves_def write_file_def spawns_def split: option.splits)

lemma startswith_append: "startswith (d @ x) d"
  by (simp add: startswith_def)

lemma preserves_write_file_workspace:
  "preserves (\<lambda>s. rmtree d (paths s)) (write_file w (d @ ''/source.asm'') text)"
proof -
  have "startswith (d @ ''/source.asm'') (d @ ''/'')"
    by (simp add: startswith_def)
  then show ?thesis
    by (simp add: preserves_def write_file_def rmtree_def split: option.splits)
qed

lemma preserves_create_paths: "preserves (\<lambda>s. h (paths s)) (create_jupyter_subprocess w cmd)"
  unfolding create_jupyter_subprocess_def by (intro preserves_intros)

lemma preserves_compile_stage_workspace:
  "preserves (\<lambda>s. rmtree d (paths s)) (compile_stage w magics code d)"
  unfolding compile_stage_def compile_code_def Let_def
  by (intro preserves_intros preserves_write_file_workspace preserves_create_paths
      preserves_run_to_exit_paths)

lemma preserves_link_stage_paths: "preserves (\<lambda>s. h (paths s)) (link_stage w magics d)"
  unfolding link_stage_def link_code_def Let_def
  by (intro preserves_intros preserves_create_paths preserves_run_to_exit_paths)

lemma preserves_execute_stage_paths: "preserves (\<lambda>s. h (paths s)) (execute_stage w magics d)"
  unfolding execute_stage_def Let_def
  by (intro preserves_intros | simp only: split_def)+

lemma preserves_pipeline_workspace:
  "preserves (\<lambda>s. rmtree d (paths s)) (pipeline w k magics code d)"
  unfolding pipeline_def
  by (intro preserves_intros preserves_compile_stage_workspace preserves_link_stage_paths
      preserves_execute_stage_paths | simp only: split: if_split | intro conjI impI)+

lemma rmtree_idem: "rmtree d (rmtree d ps) = rmtree d ps"
  by (simp add: rmtree_def)

lemma rmtree_Cons_self: "rmtree d (d # ps) = rmtree d ps"
  by (simp add: rmtree_def)

lemma rmtree_absent: "d \<notin> set (rmtree d ps) \<and> (\<forall>p \<in> set (rmtree d ps). \<not> startswith p (d @ ''/''))"
  by (simp add: rmtree_def)

lemma with_temporary_directory_paths:
  assumes "mkdtemp w = Inr d" and "preserves (\<lambda>s. rmtree d (paths s)) (body d)"
    and "with_temporary_directory w body s = (r, s')" and "r \<noteq> Diverge"
  shows "paths s' = rmtree d (paths s)"
proof -
  obtain r0 s0 where run: "body d (s\<lparr>paths := d # paths s\<rparr>) = (r0, s0)"
    by (cases "body d (s\<lparr>paths := d # paths s\<rparr>)")
  from preservesD [OF assms(2) run] have inv: "rmtree d (paths s0) = rmtree d (paths s)"
    by (simp add: rmtree_Cons_self)
  from assms(3,4) run assms(1) have "s' = s0\<lparr>paths := rmtree d (paths s0)\<rparr>"
    by (cases r0) (auto simp: with_temporary_directory_def)
  with inv show ?thesis by simp
qed

text \<open>
  Claim C8. The directory that \<^verbatim>\<open>TemporaryDirectory()\<close> made is \<open>d\<close>. However the
  block ends (the value returned after a full run, after a failed compilation or a failed
  link, or an exception raised inside), the paths left are those from before the block
  without \<open>d\<close> and without anything below \<open>d\<close>. For the whole of
  \<^verbatim>\<open>do_compile_link_execute\<close>, when \<open>d\<close> is a fresh name, the paths at the end are
  those at the start. Nothing is said of a run that never ends.
\<close>

theorem workspace_removed:
  assumes "mkdtemp w = Inr d"
  shows "(with_temporary_directory w (pipeline w k magics src) s1 = (r, s') \<and> r \<noteq> Diverge \<longrightarrow>
            paths s' = rmtree d (paths s1) \<and> d \<notin> set (paths s')
            \<and> list_all (\<lambda>p. \<not> startswith p (d @ ''/'')) (paths s'))
         \<and> (do_compile_link_execute w k code s = (r, s') \<and> r \<noteq> Diverge
              \<and> rmtree d (paths s) = paths s \<longrightarrow> paths s' = paths s)"
proof -
  have a: "paths s' = rmtree d (paths s1)"
    if "with_temporary_directory w (pipeline w k magics src) s1 = (r, s')" and "r \<noteq> Diverge"
    for magics src s1 r s'
    using with_temporary_directory_paths [OF assms preserves_pipeline_workspace that] .
  have b: "paths s' = paths s"
    if run: "do_compile_link_execute w k code s = (r, s')" and r: "r \<noteq> Diverge"
      and fresh: "rmtree d (paths s) = paths s"
  proof (cases "filter_magics w code s")
    case (Pair r1 s1)
    from preservesD [OF preserves_filter_magics_paths [where h = "\<lambda>ps. ps"] Pair]
    have p1: "paths s1 = paths s" .
    show ?thesis
    proof (cases r1)
      case (Return x)
      obtain magics src where x: "x = (magics, src)" by (cases x)
      from run Pair Return x
      have "with_temporary_directory w (pipeline w k magics src) s1 = (r, s')"
        by (simp add: do_compile_link_execute_def bind_def)
      from a [OF this r] p1 fresh show ?thesis by simp
    next
      case (Raise e)
      with run Pair p1 show ?thesis by (simp add: do_compile_link_execute_def bind_def)
    next
      case Diverge
      with run Pair p1 show ?thesis by (simp add: do_compile_link_execute_def bind_def)
    qed
  qed
  from a b rmtree_absent [of d] show ?thesis by (auto simp: list_all_iff)
qed


section \<open>Properties of the pipeline\<close>

lemma bind_Return:
  "bind m f s = (Return y, s'') \<longleftrightarrow> (\<exists>x s'. m s = (Return x, s') \<and> f x s' = (Return y, s''))"
  by (cases "m s") (auto simp: bind_def split: outcome.splits)

lemma create_jupyter_subprocess_spawns:
  "create_jupyter_subprocess w cmd s = (Return p, s') \<Longrightarrow> spawns s' = Suc (spawns s)"
  by (cases "popen w cmd")
     (auto simp: create_jupyter_subprocess_def bind_def emit_def lift_result_def ret_def
        raise_def spawns_def spawn_count_def)

lemma preserves_verbose_echo_spawns: "preserves spawns (when_do b (emit (Stderr text)))"
  by (intro preserves_when_do preserves_emit_spawns) simp

lemma compile_stage_spawns:
  assumes "compile_stage w magics code d s = (Return rc, s')"
  shows "spawns s' = Suc (spawns s)"
proof -
  from assms obtain s1 s2 s3 s4 pc where
    1: "when_do (verbose magics)
          (emit (Stderr (''[ASM kernel] created temporary directory '' @ d @ '' '' @ [CHR 0x0A]))) s
        = (Return (), s1)"
    and 2: "write_file w (d @ ''/source.asm'') code s1 = (Return (), s2)"
    and 3: "when_do (verbose magics)
          (emit (Stderr (''[ASM kernel] Compiling with:  ''
             @ join '' '' ([compiler magics] @ cflags magics @ [''-o'', d @ ''/source.o'']
                            @ [d @ ''/source.asm'']) @ '' '' @ [CHR 0x0A]))) s2
        = (Return (), s3)"
    and 4: "create_jupyter_subprocess w
              ([compiler magics] @ cflags magics @ [''-o'', d @ ''/source.o''] @ [d @ ''/source.asm'']) s3
            = (Return pc, s4)"
    and 5: "run_to_exit w pc s4 = (Return rc, s')"
    unfolding compile_stage_def compile_code_def Let_def bind_Return by auto
  from preservesD [OF preserves_verbose_echo_spawns 1] preservesD [OF preserves_write_file_spawns 2]
    preservesD [OF preserves_verbose_echo_spawns 3] create_jupyter_subprocess_spawns [OF 4]
    preservesD [OF preserves_run_to_exit_spawns 5]
  show ?thesis by simp
qed

lemma link_stage_spawns:
  assumes "link_stage w magics d s = (Return rc, s')"
  shows "spawns s' = Suc (spawns s)"
proof -
  from assms obtain s1 s2 pl where
    1: "when_do (verbose magics)
          (emit (Stderr (''[ASM kernel] Linking with:    ''
             @ join '' '' ([linker magics] @ ldflags magics @ [''-o'', d @ ''/source.run'', d @ ''/source.o''])
             @ '' '' @ [CHR 0x0A]))) s
        = (Return (), s1)"
    and 2: "create_jupyter_subprocess w
              ([linker magics] @ ldflags magics @ [''-o'', d @ ''/source.run'', d @ ''/source.o'']) s1
            = (Return pl, s2)"
    and 3: "run_to_exit w pl s2 = (Return rc, s')"
    unfolding link_stage_def link_code_def Let_def bind_Return by auto
  from preservesD [OF preserves_verbose_echo_spawns 1] create_jupyter_subprocess_spawns [OF 2]
    preservesD [OF preserves_run_to_exit_spawns 3]
  show ?thesis by simp
qed

lemma spawn_count_snoc_Stderr: "spawn_count (evs @ [Stderr text]) = spawn_count evs"
  by (simp add: spawn_count_def)

text \<open>
  Claim C1. The parser has returned and the temporary directory is \<open>d\<close>. If the
  compile stage returns a code other than 0, the pipeline writes the diagnostic to
  stderr and returns the ok reply; the trace then holds one subprocess start more than
  before the submission, so neither the linker nor the program was started. If the
  compile stage returns 0 and the link stage a code other than 0, the pipeline writes
  the linker's diagnostic and returns the ok reply with two starts more than before, so
  the program was not started.
\<close>

theorem fail_fast:
  assumes "filter_magics w code s = (Return (magics, src), s1)" and "mkdtemp w = Inr d"
  shows "(compile_stage w magics src d (s1\<lparr>paths := d # paths s1\<rparr>) = (Return rc, s2) \<and> rc \<noteq> 0 \<longrightarrow>
            do_compile_link_execute w k code s =
              (Return (ok_reply k),
               s2\<lparr>trace := trace s2 @ [Stderr (compile_diagnostic rc)],
                   paths := rmtree d (paths s2)\<rparr>)
            \<and> spawn_count (trace s2 @ [Stderr (compile_diagnostic rc)]) = spawn_count (trace s) + 1)
         \<and> (compile_stage w magics src d (s1\<lparr>paths := d # paths s1\<rparr>) = (Return 0, s2)
              \<and> link_stage w magics d s2 = (Return rc, s3) \<and> rc \<noteq> 0 \<longrightarrow>
            do_compile_link_execute w k code s =
              (Return (ok_reply k),
               s3\<lparr>trace := trace s3 @ [Stderr (link_diagnostic rc)],
                   paths := rmtree d (paths s3)\<rparr>)
            \<and> spawn_count (trace s3 @ [Stderr (link_diagnostic rc)]) = spawn_count (trace s) + 2)"
proof -
  let ?s1 = "s1\<lparr>paths := d # paths s1\<rparr>"
  from preservesD [OF preserves_filter_magics_spawns assms(1)]
  have start: "spawns ?s1 = spawns s" by (simp add: spawns_def)
  have a: "do_compile_link_execute w k code s =
              (Return (ok_reply k),
               s2\<lparr>trace := trace s2 @ [Stderr (compile_diagnostic rc)],
                   paths := rmtree d (paths s2)\<rparr>)
            \<and> spawn_count (trace s2 @ [Stderr (compile_diagnostic rc)]) = spawn_count (trace s) + 1"
    if c: "compile_stage w magics src d ?s1 = (Return rc, s2)" and rc: "rc \<noteq> 0"
  proof -
    from c rc have "pipeline w k magics src d ?s1 =
        (Return (ok_reply k), s2\<lparr>trace := trace s2 @ [Stderr (compile_diagnostic rc)]\<rparr>)"
      by (simp add: pipeline_def bind_def emit_def ret_def)
    with assms have "do_compile_link_execute w k code s =
              (Return (ok_reply k),
               s2\<lparr>trace := trace s2 @ [Stderr (compile_diagnostic rc)],
                   paths := rmtree d (paths s2)\<rparr>)"
      by (simp add: do_compile_link_execute_def bind_def with_temporary_directory_def)
    moreover from compile_stage_spawns [OF c] start
    have "spawn_count (trace s2) = spawn_count (trace s) + 1" by (simp add: spawns_def)
    ultimately show ?thesis by (simp add: spawn_count_snoc_Stderr)
  qed
  have b: "do_compile_link_execute w k code s =
              (Return (ok_reply k),
               s3\<lparr>trace := trace s3 @ [Stderr (link_diagnostic rc)],
                   paths := rmtree d (paths s3)\<rparr>)
            \<and> spawn_count (trace s3 @ [Stderr (link_diagnostic rc)]) = spawn_count (trace s) + 2"
    if c: "compile_stage w magics src d ?s1 = (Return 0, s2)"
      and l: "link_stage w magics d s2 = (Return rc, s3)" and rc: "rc \<noteq> 0"
  proof -
    from c l rc have "pipeline w k magics src d ?s1 =
        (Return (ok_reply k), s3\<lparr>trace := trace s3 @ [Stderr (link_diagnostic rc)]\<rparr>)"
      by (simp add: pipeline_def bind_def emit_def ret_def)
    with assms have "do_compile_link_execute w k code s =
              (Return (ok_reply k),
               s3\<lparr>trace := trace s3 @ [Stderr (link_diagnostic rc)],
                   paths := rmtree d (paths s3)\<rparr>)"
      by (simp add: do_compile_link_execute_def bind_def with_temporary_directory_def)
    moreover from compile_stage_spawns [OF c] link_stage_spawns [OF l] start
    have "spawn_count (trace s3) = spawn_count (trace s) + 2" by (simp add: spawns_def)
    ultimately show ?thesis by (simp add: spawn_count_snoc_Stderr)
  qed
  from a b show ?thesis by blast
qed


lemma quiet_submission:
  "filter_magics w '';%verbose: 0'' s = (Return (default_magics\<lparr>verbose := False\<rparr>, []), s)"
proof -
  have "filter_lines default_magics [] (splitlines '';%verbose: 0'')
          = Inr (default_magics\<lparr>verbose := False\<rparr>, [])"
    by code_simp
  from filter_magics_returns [OF this] show ?thesis by simp
qed

lemmas run_simps =
  compile_stage_def compile_code_def link_stage_def link_code_def execute_stage_def
  create_jupyter_subprocess_def write_file_def write_contents_def execute_command_def
  bind_def ret_def raise_def emit_def when_do_def lift_result_def Let_def
  ascii_world_def ascii_decode_def initial_sys_def default_magics_def

text \<open>
  Claim C1 on two runs: the assembler exits with code 1; the assembler exits with
  code 0 and the linker with code 1.
\<close>

theorem fail_fast_witness:
  "do_compile_link_execute failing_compile_world ASMKernel_init '';%verbose: 0'' initial_sys =
     (Return (ok_reply ASMKernel_init),
      initial_sys\<lparr>trace := [Popen [''yasm'', ''-o'', ''/tmp/tmpq1/source.o'', ''/tmp/tmpq1/source.asm''],
                            Stderr ''warning'', Stderr ''error: bad'',
                            Stderr (compile_diagnostic 1)]\<rparr>)
   \<and> do_compile_link_execute failing_link_world ASMKernel_init '';%verbose: 0'' initial_sys =
     (Return (ok_reply ASMKernel_init),
      initial_sys\<lparr>trace := [Popen [''yasm'', ''-o'', ''/tmp/tmpq1/source.o'', ''/tmp/tmpq1/source.asm''],
                            Popen [''gcc'', ''-o'', ''/tmp/tmpq1/source.run'', ''/tmp/tmpq1/source.o''],
                            Stderr ''undefined reference'',
                            Stderr (link_diagnostic 1)]\<rparr>)"
proof -
  let ?m = "default_magics\<lparr>verbose := False\<rparr>"
  let ?d = "''/tmp/tmpq1''"
  let ?s1 = "initial_sys\<lparr>paths := ?d # paths initial_sys\<rparr>"
  let ?yasm = "Popen [''yasm'', ''-o'', ''/tmp/tmpq1/source.o'', ''/tmp/tmpq1/source.asm'']"
  let ?gcc = "Popen [''gcc'', ''-o'', ''/tmp/tmpq1/source.run'', ''/tmp/tmpq1/source.o'']"
  have d1: "mkdtemp failing_compile_world = Inr ?d"
    by (simp add: failing_compile_world_def ascii_world_def)
  have c1: "compile_stage failing_compile_world ?m [] ?d ?s1 =
      (Return 1, initial_sys\<lparr>trace := [?yasm, Stderr ''warning'', Stderr ''error: bad''],
                             paths := [''/tmp/tmpq1/source.asm'', ?d]\<rparr>)"
    by (simp add: run_simps failing_compile_world_def)
  have d2: "mkdtemp failing_link_world = Inr ?d"
    by (simp add: failing_link_world_def ascii_world_def)
  have c2: "compile_stage failing_link_world ?m [] ?d ?s1 =
      (Return 0, initial_sys\<lparr>trace := [?yasm], paths := [''/tmp/tmpq1/source.asm'', ?d]\<rparr>)"
    by (simp add: run_simps failing_link_world_def)
  have l2: "link_stage failing_link_world ?m ?d
              (initial_sys\<lparr>trace := [?yasm], paths := [''/tmp/tmpq1/source.asm'', ?d]\<rparr>) =
      (Return 1, initial_sys\<lparr>trace := [?yasm, ?gcc, Stderr ''undefined reference''],
                             paths := [''/tmp/tmpq1/source.asm'', ?d]\<rparr>)"
    by (simp add: run_simps failing_link_world_def)
  have gone: "rmtree ?d [''/tmp/tmpq1/source.asm'', ?d] = []"
    by (simp add: rmtree_def startswith_def)
  from fail_fast [OF quiet_submission d1, where rc = 1 and k = ASMKernel_init] c1
  have a: "do_compile_link_execute failing_compile_world ASMKernel_init '';%verbose: 0'' initial_sys =
     (Return (ok_reply ASMKernel_init),
      initial_sys\<lparr>trace := [?yasm, Stderr ''warning'', Stderr ''error: bad'', Stderr (compile_diagnostic 1)]\<rparr>)"
    by (simp add: gone initial_sys_def)
  from fail_fast [OF quiet_submission d2, where rc = 1 and k = ASMKernel_init] c2 l2
  have b: "do_compile_link_execute failing_link_world ASMKernel_init '';%verbose: 0'' initial_sys =
     (Return (ok_reply ASMKernel_init),
      initial_sys\<lparr>trace := [?yasm, ?gcc, Stderr ''undefined reference'', Stderr (link_diagnostic 1)]\<rparr>)"
    by (simp add: gone initial_sys_def)
  from a b show ?thesis by simp
qed


lemma compile_failure_returns:
  "fst (do_compile_link_execute failing_compile_world k '';%verbose: 0'' s) = Return (ok_reply k)"
  by (simp add: do_compile_link_execute_def quiet_submission with_temporary_directory_def
      pipeline_def compile_stage_def compile_code_def create_jupyter_subprocess_def write_file_def
      write_contents_def bind_def ret_def raise_def emit_def when_do_def lift_result_def Let_def
      ascii_world_def ascii_decode_def default_magics_def failing_compile_world_def)

text \<open>
  Claim C8 on a run where the assembler fails, started with one path in the file
  system: the same path, and no other, is there at the end.
\<close>

theorem workspace_removed_witness:
  "paths (snd (do_compile_link_execute failing_compile_world ASMKernel_init '';%verbose: 0''
                 (initial_sys\<lparr>paths := [''/home/user/notes'']\<rparr>)))
     = [''/home/user/notes'']"
proof -
  let ?s = "initial_sys\<lparr>paths := [''/home/user/notes'']\<rparr>"
  obtain r s' where run:
    "do_compile_link_execute failing_compile_world ASMKernel_init '';%verbose: 0'' ?s = (r, s')"
    by (cases "do_compile_link_execute failing_compile_world ASMKernel_init '';%verbose: 0'' ?s")
  from compile_failure_returns [of ASMKernel_init ?s] run have r: "r \<noteq> Diverge" by simp
  have d: "mkdtemp failing_compile_world = Inr ''/tmp/tmpq1''"
    by (simp add: failing_compile_world_def ascii_world_def)
  have fresh: "rmtree ''/tmp/tmpq1'' (paths ?s) = paths ?s"
    by (simp add: rmtree_def startswith_def)
  from workspace_removed [OF d] run r fresh have "paths s' = paths ?s" by blast
  with run show ?thesis by simp
qed

section \<open>Termination and the reply\<close>

lemma bind_bind: "bind (bind m f) g = bind m (\<lambda>x. bind (f x) g)"
  by (rule ext) (simp add: bind_def split: prod.splits outcome.splits)

lemma bind_ret_left: "bind (ret x) f = f x"
  by (rule ext) (simp add: bind_def ret_def)









































subsection \<open>What is raised\<close>































section \<open>Properties of a session\<close>

lemma run_session_append:
  "run_session (xs @ ys) k = bind (run_session xs k) (run_session ys)"
proof (induction xs arbitrary: k)
  case Nil
  show ?case by (simp add: bind_ret_left)
next
  case (Cons x xs)
  obtain w req where x: "x = (w, req)" by (cases x)
  have "run_session (xs @ ys) = (\<lambda>k. bind (run_session xs k) (run_session ys))"
    using Cons.IH by (intro ext) simp
  then show ?case by (simp add: x bind_bind)
qed

lemma handle_request_kernel: "handle_request w req k s = (Return k', s') \<Longrightarrow> k' = k"
  by (cases req)
     (auto simp: handle_request_def bind_def ret_def split: prod.splits outcome.splits)

lemma run_session_kernel: "run_session reqs k s = (Return k', s') \<Longrightarrow> k' = k"
proof (induction reqs arbitrary: k s)
  case Nil
  then show ?case by (simp add: ret_def)
next
  case (Cons x reqs)
  obtain w req where x: "x = (w, req)" by (cases x)
  from Cons.prems obtain k1 s1 where
    step: "handle_request w req k s = (Return k1, s1)" and rest: "run_session reqs k1 s1 = (Return k', s')"
    by (auto simp: x bind_def split: prod.splits outcome.splits)
  from handle_request_kernel [OF step] Cons.IH [OF rest] show ?case by simp
qed

lemma shutdown_removes_nothing:
  "files k = [] \<Longrightarrow> handle_request w (ShutdownRequest restart) k s = (Return k, s)"
  by (simp add: handle_request_def do_shutdown_def cleanup_files_def bind_def ret_def)

text \<open>
  Claim C9. The kernel starts with an empty list of files. After any sequence of
  requests that ends, the list is empty, and a shutdown then removes no path and leaves
  the state as it is; a sequence with a shutdown request added at its end gives what
  the sequence gives without it.
\<close>

theorem files_remain_empty:
  "(\<forall>k' s'. run_session reqs ASMKernel_init s = (Return k', s') \<longrightarrow>
       files k' = [] \<and> do_shutdown w k' restart s' = (Return (), s'))
   \<and> run_session (reqs @ [(w, ShutdownRequest restart)]) ASMKernel_init s
       = run_session reqs ASMKernel_init s"
proof -
  have a: "files k' = [] \<and> do_shutdown w k' restart s' = (Return (), s')"
    if "run_session reqs ASMKernel_init s = (Return k', s')" for k' s'
    using run_session_kernel [OF that]
    by (simp add: ASMKernel_init_def do_shutdown_def cleanup_files_def ret_def)
  have b: "run_session (reqs @ [(w, ShutdownRequest restart)]) ASMKernel_init s
       = run_session reqs ASMKernel_init s"
  proof (cases "run_session reqs ASMKernel_init s")
    case (Pair r s')
    show ?thesis
    proof (cases r)
      case (Return k')
      with Pair run_session_kernel [of reqs ASMKernel_init s k' s']
      have k': "k' = ASMKernel_init" by simp
      have "files ASMKernel_init = []" by (simp add: ASMKernel_init_def)
      from shutdown_removes_nothing [OF this, of w restart s'] Pair Return k'
      show ?thesis by (simp add: run_session_append bind_def bind_ret_left ret_def)
    qed (use Pair in \<open>simp_all add: run_session_append bind_def\<close>)
  qed
  from a b show ?thesis by blast
qed

lemma handle_execute_request:
  assumes "case fst (do_compile_link_execute w k code s) of
             Return r \<Rightarrow> True | Raise e \<Rightarrow> is_Exception e | Diverge \<Rightarrow> False"
  shows "\<exists>s'. handle_request w (ExecuteRequest code) k s = (Return k, s')"
proof (cases "do_compile_link_execute w k code s")
  case (Pair r s')
  with assms show ?thesis
    by (cases r) (simp_all add: handle_request_def do_execute_def bind_def ret_def emit_def)
qed

text \<open>
  Claim C9 on a session of two submissions, one with a failed compilation and one with
  a directive line without a colon.
\<close>

theorem files_remain_empty_witness:
  "\<exists>k' s'. run_session [(failing_compile_world, ExecuteRequest '';%verbose: 0''),
                         (ascii_world, ExecuteRequest '';%cflags'')] ASMKernel_init initial_sys
             = (Return k', s')
           \<and> files k' = [] \<and> do_shutdown ascii_world k' False s' = (Return (), s')"
proof -
  let ?k = ASMKernel_init
  have "case fst (do_compile_link_execute failing_compile_world ?k '';%verbose: 0'' initial_sys) of
          Return r \<Rightarrow> True | Raise e \<Rightarrow> is_Exception e | Diverge \<Rightarrow> False"
    by (simp add: compile_failure_returns)
  from handle_execute_request [OF this] obtain s1 where
    1: "handle_request failing_compile_world (ExecuteRequest '';%verbose: 0'') ?k initial_sys
          = (Return ?k, s1)" by blast
  have 3: "'';%cflags'' \<in> set (splitlines '';%cflags'')" by code_simp
  have 4: "malformed '';%cflags''" by code_simp
  from malformed_submission [OF 3 4, of ascii_world s1 ?k]
  have "case fst (do_compile_link_execute ascii_world ?k '';%cflags'' s1) of
          Return r \<Rightarrow> True | Raise e \<Rightarrow> is_Exception e | Diverge \<Rightarrow> False" by auto
  from handle_execute_request [OF this] obtain s2 where
    2: "handle_request ascii_world (ExecuteRequest '';%cflags'') ?k s1 = (Return ?k, s2)" by blast
  from 1 2 have run: "run_session [(failing_compile_world, ExecuteRequest '';%verbose: 0''),
                         (ascii_world, ExecuteRequest '';%cflags'')] ?k initial_sys = (Return ?k, s2)"
    by (simp add: bind_def ret_def)
  with files_remain_empty [where reqs = "[(failing_compile_world, ExecuteRequest '';%verbose: 0''),
                         (ascii_world, ExecuteRequest '';%cflags'')]"
      and s = initial_sys and restart = False and w = ascii_world]
  show ?thesis by blast
qed

section \<open>The command of the execute stage\<close>

lemma quoted_args_lines:
  "filter_lines default_magics []
     (splitlines ('';%verbose: 0'' @ [CHR 0x0A] @ '';%args: '' @ [CHR 0x22] @ ''a b'' @ [CHR 0x22] @ '' c''))
   = Inr (default_magics\<lparr>verbose := False, args := [''a b'', ''c'']\<rparr>, [])"
  by code_simp

text \<open>
  Claim C6 does not hold of the code. The execute stage joins the path of the binary and
  the arguments with blanks and hands that one text to \<^verbatim>\<open>pexpect.run\<close>. For the
  arguments \<^verbatim>\<open>a b\<close> and \<^verbatim>\<open>c\<close> the text is the one for the three arguments
  \<^verbatim>\<open>a\<close>, \<^verbatim>\<open>b\<close>, \<^verbatim>\<open>c\<close>, so the argument with a blank does not reach the program
  as one element. The last part runs the submission
  \<^verbatim>\<open>;%verbose: 0\<close>, \<^verbatim>\<open>;%args: "a b" c\<close> through \<^verbatim>\<open>do_execute\<close>: the assembler and
  the linker get their arguments as lists, the program a single line.
\<close>

theorem execute_stage_joins_arguments:
  "execute_command binary_file_name [''a b'', ''c''] = binary_file_name @ '' a b c''
   \<and> execute_command binary_file_name [''a b'', ''c'']
       = execute_command binary_file_name [''a'', ''b'', ''c'']
   \<and> do_execute ascii_world ASMKernel_init
        ('';%verbose: 0'' @ [CHR 0x0A] @ '';%args: '' @ [CHR 0x22] @ ''a b'' @ [CHR 0x22] @ '' c'')
        initial_sys =
      (Return (ok_reply ASMKernel_init),
       initial_sys\<lparr>trace := [Popen [''yasm'', ''-o'', ''/tmp/tmpq1/source.o'', ''/tmp/tmpq1/source.asm''],
                             Popen [''gcc'', ''-o'', ''/tmp/tmpq1/source.run'', ''/tmp/tmpq1/source.o''],
                             PexpectRun ''/tmp/tmpq1/source.run a b c'', Stdout []]\<rparr>)"
proof -
  have a: "execute_command binary_file_name [''a b'', ''c''] = binary_file_name @ '' a b c''"
    by (simp add: execute_command_def)
  have b: "execute_command binary_file_name [''a b'', ''c'']
       = execute_command binary_file_name [''a'', ''b'', ''c'']"
    by (simp add: execute_command_def)
  let ?code = "'';%verbose: 0'' @ [CHR 0x0A] @ '';%args: '' @ [CHR 0x22] @ ''a b'' @ [CHR 0x22] @ '' c''"
  let ?m = "default_magics\<lparr>verbose := False, args := [''a b'', ''c'']\<rparr>"
  have p: "filter_magics ascii_world ?code initial_sys = (Return (?m, []), initial_sys)"
    using filter_magics_returns [OF quoted_args_lines] by simp
  let ?d = "''/tmp/tmpq1''"
  let ?t = "[Popen [''yasm'', ''-o'', ''/tmp/tmpq1/source.o'', ''/tmp/tmpq1/source.asm''],
             Popen [''gcc'', ''-o'', ''/tmp/tmpq1/source.run'', ''/tmp/tmpq1/source.o''],
             PexpectRun ''/tmp/tmpq1/source.run a b c'', Stdout []]"
  have d: "mkdtemp ascii_world = Inr ?d" by (simp add: ascii_world_def)
  have pl: "pipeline ascii_world ASMKernel_init ?m [] ?d (initial_sys\<lparr>paths := ?d # paths initial_sys\<rparr>)
      = (Return (ok_reply ASMKernel_init),
         initial_sys\<lparr>trace := ?t, paths := [''/tmp/tmpq1/source.asm'', ?d]\<rparr>)"
    by (simp add: pipeline_def run_simps)
  have gone: "rmtree ?d [''/tmp/tmpq1/source.asm'', ?d] = []"
    by (simp add: rmtree_def startswith_def)
  have wt: "with_temporary_directory ascii_world (pipeline ascii_world ASMKernel_init ?m []) initial_sys
      = (Return (ok_reply ASMKernel_init), initial_sys\<lparr>trace := ?t\<rparr>)"
    using d pl gone by (simp add: with_temporary_directory_def initial_sys_def)
  have dc: "do_compile_link_execute ascii_world ASMKernel_init ?code initial_sys
      = (Return (ok_reply ASMKernel_init), initial_sys\<lparr>trace := ?t\<rparr>)"
    using p wt by (simp add: do_compile_link_execute_def bind_def)
  have c: "do_execute ascii_world ASMKernel_init ?code initial_sys
      = (Return (ok_reply ASMKernel_init), initial_sys\<lparr>trace := ?t\<rparr>)"
    using dc by (simp add: do_execute_def)
  from a b c show ?thesis by blast
qed

end
